theory Spec2Isabelle
  imports Main "HOL-Library.Word" "HOL-Library.Sublist"
begin

unbundle bit_operations_syntax

section \<open>Data model of the transport client\<close>

text \<open>
  The development embeds the Go transport client of the gateway: the file
  \<^verbatim>\<open>golang/whisper_client.go\<close> and the two further variants of the same file that the
  repository carries (called part 000 and part 001 below). Machine integers are words,
  byte slices are lists of 8-bit words, and everything the client asks of the operating
  system or of the Go runtime (dialling, writing, reading, allocating, the file system,
  the JSON text encoding) is a field of an environment record, so that every theorem
  holds for every behaviour of the network and of the peer.
\<close>

type_synonym byte = "8 word"
type_synonym uint64 = "64 word"
type_synonym int64 = "64 word"
type_synonym float64 = "64 word"

definition headerSize :: nat where
  "headerSize = 8"

definition maxRetries :: nat where
  "maxRetries = 3"

text \<open>Durations are in milliseconds.\<close>

definition retryTimeout :: nat where
  "retryTimeout = 2 * 1000"

definition connectTimeout :: nat where
  "connectTimeout = 5 * 1000"

record Metrics =
  RequestsTotal :: int64
  ErrorsTotal :: int64
  ProcessingTimeMs :: int64

text \<open>
  The field \<open>conn\<close> is the handle of the stored connection: \<open>None\<close> is Go's nil
  interface value, \<open>Some k\<close> the socket opened by the dial attempt number \<open>k\<close>.
\<close>

record WhisperClient =
  Host :: string
  Port :: string
  conn :: "nat option"
  metrics :: Metrics

record FileTranscriptionRequest =
  f_Command :: string
  f_AudioPath :: string
  f_Model :: string
  f_Language :: "string option"
  f_Task :: string

record DataTranscriptionRequest =
  d_Command :: string
  d_AudioData :: string
  d_Model :: string
  d_Language :: "string option"
  d_Task :: string

text \<open>The single request type of part 001, with both audio fields.\<close>

record TranscriptionRequest =
  r_Command :: string
  r_AudioPath :: string
  r_AudioData :: string
  r_Model :: string
  r_Language :: "string option"
  r_Task :: string

record ModelsRequest =
  m_Command :: string

datatype request =
    FileReq FileTranscriptionRequest
  | DataReq DataTranscriptionRequest
  | TransReq TranscriptionRequest
  | ModelsReq ModelsRequest

record Segment =
  s_Text :: string
  s_Start :: float64
  s_End :: float64

record TranscriptionResponse =
  t_Text :: string
  t_Language :: string
  t_Segments :: "Segment list"
  t_ProcessingTime :: float64
  t_Error :: string

record ModelsResponse =
  AvailableModels :: "(string \<times> string) list"
  LoadedModels :: "string list"
  l_Error :: string

datatype ctx_error = Canceled | DeadlineExceeded

text \<open>
  Every error return of the source is a constructor. \<open>ErrSend\<close> is the wrapping
  \<^verbatim>\<open>fmt.Errorf("... %v", err)\<close> of \<^verbatim>\<open>Transcribe\<close>; the two panics are the run-time
  panics of \<^verbatim>\<open>make\<close> on a length the runtime refuses and of a method call on a nil
  connection.
\<close>

datatype error =
    ErrConnect
  | ErrDial
  | ErrMarshal
  | ErrWriteHeader
  | ErrWriteBody
  | ErrReadHeader
  | ErrReadBody
  | ErrDecode
  | ErrApp string
  | ErrAbs
  | ErrNotExist string
  | ErrSend error
  | ErrCtx ctx_error
  | PanicMakeslice nat
  | PanicNilConn

fun is_panic :: "error \<Rightarrow> bool" where
  "is_panic (PanicMakeslice n) = True"
| "is_panic PanicNilConn = True"
| "is_panic e = False"

section \<open>The environment: network, runtime and file system\<close>

text \<open>
  An event is one call the client makes to the outside, with its outcome:
  a dial attempt (address, number of the attempt, success), a sleep, a write of bytes on
  a socket, an \<^verbatim>\<open>io.ReadFull\<close> of a number of bytes from a socket, the close of a socket,
  and the allocation of a response buffer.
\<close>

datatype event =
    EvDial string nat bool
  | EvSleep nat
  | EvWrite nat "byte list" bool
  | EvRead nat nat bool
  | EvClose nat
  | EvMake nat bool

record env =
  dial_ok :: "string \<Rightarrow> nat \<Rightarrow> bool"
  peer_bytes :: "nat \<Rightarrow> byte list"
  write_ok :: "nat \<Rightarrow> nat \<Rightarrow> bool"
  alloc_ok :: "nat \<Rightarrow> bool"
  cost :: "event \<Rightarrow> nat"
  render :: "(string \<times> string) list \<Rightarrow> byte list option"
  parse_transcription :: "byte list \<Rightarrow> TranscriptionResponse option"
  parse_models :: "byte list \<Rightarrow> ModelsResponse option"
  abs_path :: "string \<Rightarrow> string option"
  stat_not_exist :: "string \<Rightarrow> bool"
  base64 :: "byte list \<Rightarrow> string"

text \<open>
  \<open>dial_ok addr k\<close> says whether the dial attempt number \<open>k\<close> to \<open>addr\<close> succeeds;
  \<open>peer_bytes k\<close> is what the peer of socket \<open>k\<close> delivers before the stream ends or a
  deadline passes; \<open>write_ok k j\<close> is the outcome of the write number \<open>j\<close> on socket
  \<open>k\<close>; \<open>alloc_ok n\<close> says whether the runtime gives a buffer of \<open>n\<close> bytes;
  \<open>cost e\<close> is the time the event takes. \<open>render\<close> is the text encoding of
  \<^verbatim>\<open>json.Marshal\<close>, the two parsers are \<^verbatim>\<open>json.Unmarshal\<close> at the two response
  types, \<open>abs_path\<close> is \<^verbatim>\<open>filepath.Abs\<close> and \<open>stat_not_exist\<close> is
  \<^verbatim>\<open>os.IsNotExist\<close> of the error of \<^verbatim>\<open>os.Stat\<close>.
\<close>

record sock =
  rpos :: nat
  wcnt :: nat

record world =
  dials :: nat
  clock :: nat
  socks :: "nat \<rightharpoonup> sock"
  trace :: "event list"

definition emit :: "env \<Rightarrow> event \<Rightarrow> world \<Rightarrow> world" where
  "emit en e w = w\<lparr>clock := clock w + cost en e, trace := trace w @ [e]\<rparr>"

definition JoinHostPort :: "string \<Rightarrow> string \<Rightarrow> string" where
  "JoinHostPort host port =
     (if CHR '':'' \<in> set host
      then ''['' @ host @ '']:'' @ port
      else host @ '':'' @ port)"

definition net_Dial :: "env \<Rightarrow> world \<Rightarrow> string \<Rightarrow> nat option \<times> world" where
  "net_Dial en w addr =
     (let k = dials w;
          ok = dial_ok en addr k;
          w1 = emit en (EvDial addr k ok) (w\<lparr>dials := k + 1\<rparr>)
      in if ok then (Some k, w1\<lparr>socks := (socks w1)(k \<mapsto> \<lparr>rpos = 0, wcnt = 0\<rparr>)\<rparr>)
         else (None, w1))"

definition time_Sleep :: "env \<Rightarrow> nat \<Rightarrow> world \<Rightarrow> world" where
  "time_Sleep en d w = emit en (EvSleep d) w"

text \<open>A write on a closed socket fails; otherwise the environment decides.\<close>

definition conn_Write :: "env \<Rightarrow> world \<Rightarrow> nat \<Rightarrow> byte list \<Rightarrow> bool \<times> world" where
  "conn_Write en w k bs =
     (case socks w k of
        None \<Rightarrow> (False, emit en (EvWrite k bs False) w)
      | Some s \<Rightarrow>
          (let ok = write_ok en k (wcnt s)
           in (ok, emit en (EvWrite k bs ok) (w\<lparr>socks := (socks w)(k \<mapsto> s\<lparr>wcnt := wcnt s + 1\<rparr>)\<rparr>))))"

text \<open>
  \<^verbatim>\<open>io.ReadFull(conn, buf)\<close> with a buffer of \<open>n\<close> bytes: exactly \<open>n\<close> bytes, or an error
  when the stream gives fewer. With an empty buffer it returns at once, without a read.
\<close>

definition io_ReadFull :: "env \<Rightarrow> world \<Rightarrow> nat \<Rightarrow> nat \<Rightarrow> byte list option \<times> world" where
  "io_ReadFull en w k n =
     (case socks w k of
        None \<Rightarrow> (if n = 0 then (Some [], emit en (EvRead k n True) w)
                 else (None, emit en (EvRead k n False) w))
      | Some s \<Rightarrow>
          (let avail = drop (rpos s) (peer_bytes en k)
           in if length avail < n
              then (None, emit en (EvRead k n False)
                      (w\<lparr>socks := (socks w)(k \<mapsto> s\<lparr>rpos := rpos s + length avail\<rparr>)\<rparr>))
              else (Some (take n avail), emit en (EvRead k n True)
                      (w\<lparr>socks := (socks w)(k \<mapsto> s\<lparr>rpos := rpos s + n\<rparr>)\<rparr>))))"

definition conn_Close :: "env \<Rightarrow> world \<Rightarrow> nat \<Rightarrow> world" where
  "conn_Close en w k = emit en (EvClose k) (w\<lparr>socks := (socks w)(k := None)\<rparr>)"

section \<open>Frame codec\<close>

text \<open>\<^verbatim>\<open>binary.BigEndian.PutUint64\<close> and \<^verbatim>\<open>binary.BigEndian.Uint64\<close>.\<close>

definition PutUint64 :: "uint64 \<Rightarrow> byte list" where
  "PutUint64 v =
     [ucast (drop_bit 56 v), ucast (drop_bit 48 v), ucast (drop_bit 40 v), ucast (drop_bit 32 v),
      ucast (drop_bit 24 v), ucast (drop_bit 16 v), ucast (drop_bit 8 v), ucast v]"

definition Uint64 :: "byte list \<Rightarrow> uint64" where
  "Uint64 b =
     ucast (b ! 7) OR push_bit 8 (ucast (b ! 6)) OR push_bit 16 (ucast (b ! 5)) OR
     push_bit 24 (ucast (b ! 4)) OR push_bit 32 (ucast (b ! 3)) OR push_bit 40 (ucast (b ! 2)) OR
     push_bit 48 (ucast (b ! 1)) OR push_bit 56 (ucast (b ! 0))"

text \<open>
  The write half of a call (lines 188 to 203 of \<^verbatim>\<open>sendRequest\<close>, 298 to 308 of
  \<^verbatim>\<open>sendRequestWithContext\<close>): the header with the length of the payload, then the
  payload, each with its own \<^verbatim>\<open>Write\<close>; the first failure ends it.
\<close>

definition write_frame :: "env \<Rightarrow> world \<Rightarrow> nat \<Rightarrow> byte list \<Rightarrow> error option \<times> world" where
  "write_frame en w k requestJSON =
     (let requestLen = length requestJSON;
          header = PutUint64 (of_nat requestLen)
      in case conn_Write en w k header of
           (False, w1) \<Rightarrow> (Some ErrWriteHeader, w1)
         | (True, w1) \<Rightarrow>
             (case conn_Write en w1 k requestJSON of
                (False, w2) \<Rightarrow> (Some ErrWriteBody, w2)
              | (True, w2) \<Rightarrow> (None, w2)))"

text \<open>
  The read half (lines 205 to 219 and 310 to 320): eight bytes of header, a buffer of the
  length the header gives, and as many bytes of payload. The buffer of the header is read
  only when \<^verbatim>\<open>io.ReadFull\<close> has filled it, so it has eight bytes.
\<close>

definition read_frame :: "env \<Rightarrow> world \<Rightarrow> nat \<Rightarrow> (error + byte list) \<times> world" where
  "read_frame en w k =
     (case io_ReadFull en w k headerSize of
        (None, w1) \<Rightarrow> (Inl ErrReadHeader, w1)
      | (Some headerBuf, w1) \<Rightarrow>
          (let responseLen = Uint64 headerBuf;
               n = unat responseLen;
               ok = alloc_ok en n;
               w2 = emit en (EvMake n ok) w1
           in if \<not> ok then (Inl (PanicMakeslice n), w2)
              else (case io_ReadFull en w2 k n of
                      (None, w3) \<Rightarrow> (Inl ErrReadBody, w3)
                    | (Some responseBuf, w3) \<Rightarrow> (Inr responseBuf, w3))))"

text \<open>The bytes of one frame, as the two writes put them on the wire.\<close>

definition frame :: "byte list \<Rightarrow> byte list" where
  "frame payload = PutUint64 (of_nat (length payload)) @ payload"

section \<open>Connection lifecycle\<close>

text \<open>
  The loop of \<^verbatim>\<open>ensureConnection\<close>, from the value \<open>i\<close> of its counter. The assignment
  \<^verbatim>\<open>c.conn, err = dialer.Dial(...)\<close> stores nil when the dial fails.
\<close>

function dial_loop :: "env \<Rightarrow> WhisperClient \<Rightarrow> world \<Rightarrow> nat \<Rightarrow> error option \<times> WhisperClient \<times> world" where
  "dial_loop en c w i =
     (if i < maxRetries then
        (let addr = JoinHostPort (Host c) (Port c)
         in case net_Dial en w addr of
              (Some k, w1) \<Rightarrow> (None, c\<lparr>conn := Some k\<rparr>, w1)
            | (None, w1) \<Rightarrow>
                dial_loop en (c\<lparr>conn := None\<rparr>)
                  (if i < maxRetries - 1 then time_Sleep en retryTimeout w1 else w1) (i + 1))
      else (Some ErrConnect, c, w))"
  by pat_completeness auto
termination
  by (relation "measure (\<lambda>(en, c, w, i). maxRetries - i)") auto

declare dial_loop.simps [simp del]

definition ensureConnection :: "env \<Rightarrow> WhisperClient \<Rightarrow> world \<Rightarrow> error option \<times> WhisperClient \<times> world" where
  "ensureConnection en c w =
     (if conn c \<noteq> None then (None, c, w) else dial_loop en c w 0)"

definition closeConnection :: "env \<Rightarrow> WhisperClient \<Rightarrow> world \<Rightarrow> WhisperClient \<times> world" where
  "closeConnection en c w =
     (case conn c of
        None \<Rightarrow> (c, w)
      | Some k \<Rightarrow> (c\<lparr>conn := None\<rparr>, conn_Close en w k))"

section \<open>Requests and their JSON fields\<close>

text \<open>
  \<^verbatim>\<open>json.Marshal\<close> of the request structs: the fields in the order of declaration, a
  string field tagged \<^verbatim>\<open>omitempty\<close> left out when it is empty, a pointer field tagged
  \<^verbatim>\<open>omitempty\<close> left out when the pointer is nil (and only then: a pointer to the empty
  string is encoded as an empty string). The text encoding of the fields is the
  environment's \<open>render\<close>.
\<close>

definition omitempty :: "string \<Rightarrow> string \<Rightarrow> (string \<times> string) list" where
  "omitempty key v = (if v = [] then [] else [(key, v)])"

definition omitnil :: "string \<Rightarrow> string option \<Rightarrow> (string \<times> string) list" where
  "omitnil key p = (case p of None \<Rightarrow> [] | Some v \<Rightarrow> [(key, v)])"

fun json_fields :: "request \<Rightarrow> (string \<times> string) list" where
  "json_fields (FileReq r) =
     [(''command'', f_Command r), (''audio_path'', f_AudioPath r)]
     @ omitempty ''model'' (f_Model r) @ omitnil ''language'' (f_Language r)
     @ omitempty ''task'' (f_Task r)"
| "json_fields (DataReq r) =
     [(''command'', d_Command r), (''audio_data'', d_AudioData r)]
     @ omitempty ''model'' (d_Model r) @ omitnil ''language'' (d_Language r)
     @ omitempty ''task'' (d_Task r)"
| "json_fields (TransReq r) =
     [(''command'', r_Command r)]
     @ omitempty ''audio_path'' (r_AudioPath r) @ omitempty ''audio_data'' (r_AudioData r)
     @ omitempty ''model'' (r_Model r) @ omitnil ''language'' (r_Language r)
     @ omitempty ''task'' (r_Task r)"
| "json_fields (ModelsReq r) = [(''command'', m_Command r)]"

definition json_Marshal :: "env \<Rightarrow> request \<Rightarrow> byte list option" where
  "json_Marshal en requestData = render en (json_fields requestData)"

section \<open>Sending a request\<close>

text \<open>
  \<^verbatim>\<open>sendRequest\<close> of part 001, in one thread: the receive from and the send to the channel
  \<^verbatim>\<open>connLock\<close> at its two ends leave the channel as it was and are modelled with the
  goroutines, in the section on several callers. A read or a write that fails is followed by
  \<^verbatim>\<open>closeConnection\<close>; a panic of \<^verbatim>\<open>make\<close> leaves the function at once.
\<close>

definition sendRequest_part_001 ::
  "env \<Rightarrow> WhisperClient \<Rightarrow> world \<Rightarrow> request \<Rightarrow> (error + byte list) \<times> WhisperClient \<times> world" where
  "sendRequest_part_001 en c w requestData =
     (case ensureConnection en c w of
        (Some err, c1, w1) \<Rightarrow> (Inl err, c1, w1)
      | (None, c1, w1) \<Rightarrow>
          (case json_Marshal en requestData of
             None \<Rightarrow> (Inl ErrMarshal, c1, w1)
           | Some requestJSON \<Rightarrow>
               (case conn c1 of
                  None \<Rightarrow> (Inl PanicNilConn, c1, w1)
                | Some k \<Rightarrow>
                    (case write_frame en w1 k requestJSON of
                       (Some err, w2) \<Rightarrow>
                         (let (c2, w3) = closeConnection en c1 w2 in (Inl err, c2, w3))
                     | (None, w2) \<Rightarrow>
                         (case read_frame en w2 k of
                            (Inl err, w3) \<Rightarrow>
                              (if is_panic err then (Inl err, c1, w3)
                               else (let (c2, w4) = closeConnection en c1 w3 in (Inl err, c2, w4)))
                          | (Inr responseBuf, w3) \<Rightarrow> (Inr responseBuf, c1, w3))))))"

definition add_RequestsTotal :: "WhisperClient \<Rightarrow> int64 \<Rightarrow> WhisperClient" where
  "add_RequestsTotal c d = c\<lparr>metrics := (metrics c)\<lparr>RequestsTotal := RequestsTotal (metrics c) + d\<rparr>\<rparr>"

definition add_ErrorsTotal :: "WhisperClient \<Rightarrow> int64 \<Rightarrow> WhisperClient" where
  "add_ErrorsTotal c d = c\<lparr>metrics := (metrics c)\<lparr>ErrorsTotal := ErrorsTotal (metrics c) + d\<rparr>\<rparr>"

definition add_ProcessingTimeMs :: "WhisperClient \<Rightarrow> int64 \<Rightarrow> WhisperClient" where
  "add_ProcessingTimeMs c d =
     c\<lparr>metrics := (metrics c)\<lparr>ProcessingTimeMs := ProcessingTimeMs (metrics c) + d\<rparr>\<rparr>"

text \<open>
  \<^verbatim>\<open>sendRequest\<close> of \<^verbatim>\<open>whisper_client.go\<close> and of part 000 (the two are the same text):
  the statements of part 001 between the increment of \<^verbatim>\<open>RequestsTotal\<close> and the deferred
  addition of the duration. The deadlines it sets on the connection are part of what the
  environment decides; the line it logs is not modelled.
\<close>

definition sendRequest ::
  "env \<Rightarrow> WhisperClient \<Rightarrow> world \<Rightarrow> request \<Rightarrow> (error + byte list) \<times> WhisperClient \<times> world" where
  "sendRequest en c w requestData =
     (let startTime = clock w;
          c0 = add_RequestsTotal c 1
      in case sendRequest_part_001 en c0 w requestData of
           (r, c1, w1) \<Rightarrow> (r, add_ProcessingTimeMs c1 (of_nat (clock w1 - startTime)), w1))"

text \<open>
  \<^verbatim>\<open>sendRequestWithContext\<close>: the context is not used (its parameter is \<^verbatim>\<open>_\<close>); the
  connection is dialled once, is local to the call and is closed by the deferred
  \<^verbatim>\<open>conn.Close()\<close> on every path after the dial.
\<close>

definition sendRequestWithContext ::
  "env \<Rightarrow> WhisperClient \<Rightarrow> world \<Rightarrow> request \<Rightarrow> (error + byte list) \<times> WhisperClient \<times> world" where
  "sendRequestWithContext en c w request =
     (let startTime = clock w;
          c0 = add_RequestsTotal c 1;
          (r, w') =
            (case json_Marshal en request of
               None \<Rightarrow> (Inl ErrMarshal, w)
             | Some requestJSON \<Rightarrow>
                 (case net_Dial en w (JoinHostPort (Host c0) (Port c0)) of
                    (None, w1) \<Rightarrow> (Inl ErrDial, w1)
                  | (Some k, w1) \<Rightarrow>
                      (case write_frame en w1 k requestJSON of
                         (Some err, w2) \<Rightarrow> (Inl err, conn_Close en w2 k)
                       | (None, w2) \<Rightarrow>
                           (case read_frame en w2 k of
                              (r, w3) \<Rightarrow> (r, conn_Close en w3 k)))))
      in (r, add_ProcessingTimeMs c0 (of_nat (clock w' - startTime)), w'))"

definition handleResponse ::
  "env \<Rightarrow> WhisperClient \<Rightarrow> byte list \<Rightarrow> (error + TranscriptionResponse) \<times> WhisperClient" where
  "handleResponse en c responseData =
     (case parse_transcription en responseData of
        None \<Rightarrow> (Inl ErrDecode, add_ErrorsTotal c 1)
      | Some response \<Rightarrow>
          (if t_Error response \<noteq> [] then (Inl (ErrApp (t_Error response)), add_ErrorsTotal c 1)
           else (Inr response, c)))"

section \<open>The operations of the client\<close>

text \<open>The test \<^verbatim>\<open>language != nil && *language == ""\<close> and the assignment of nil.\<close>

definition normalize_language :: "string option \<Rightarrow> string option" where
  "normalize_language language =
     (if language \<noteq> None \<and> language = Some [] then None else language)"

text \<open>
  \<^verbatim>\<open>Transcribe\<close> of \<^verbatim>\<open>whisper_client.go\<close>. A panic passes through the caller as it is;
  an error of the send is wrapped.
\<close>

definition Transcribe ::
  "env \<Rightarrow> WhisperClient \<Rightarrow> world \<Rightarrow> string \<Rightarrow> string \<Rightarrow> string option \<Rightarrow> string
     \<Rightarrow> (error + TranscriptionResponse) \<times> WhisperClient \<times> world" where
  "Transcribe en c w audioPath model language task =
     (case abs_path en audioPath of
        None \<Rightarrow> (Inl ErrAbs, c, w)
      | Some absPath \<Rightarrow>
          (if stat_not_exist en absPath then (Inl (ErrNotExist absPath), c, w)
           else
             (let language' = normalize_language language;
                  request = FileReq \<lparr>f_Command = ''transcribe'', f_AudioPath = absPath,
                              f_Model = model, f_Language = language', f_Task = task\<rparr>
              in case sendRequestWithContext en c w request of
                   (Inl err, c1, w1) \<Rightarrow> (Inl (if is_panic err then err else ErrSend err), c1, w1)
                 | (Inr responseData, c1, w1) \<Rightarrow>
                     (case handleResponse en c1 responseData of (r, c2) \<Rightarrow> (r, c2, w1)))))"

text \<open>\<^verbatim>\<open>Transcribe\<close> of part 000: no test of existence, and the stored connection.\<close>

definition Transcribe_part_000 ::
  "env \<Rightarrow> WhisperClient \<Rightarrow> world \<Rightarrow> string \<Rightarrow> string \<Rightarrow> string option \<Rightarrow> string
     \<Rightarrow> (error + TranscriptionResponse) \<times> WhisperClient \<times> world" where
  "Transcribe_part_000 en c w audioPath model language task =
     (case abs_path en audioPath of
        None \<Rightarrow> (Inl ErrAbs, c, w)
      | Some absPath \<Rightarrow>
          (let language' = normalize_language language;
               request = FileReq \<lparr>f_Command = ''transcribe'', f_AudioPath = absPath,
                           f_Model = model, f_Language = language', f_Task = task\<rparr>
           in case sendRequest en c w request of
                (Inl err, c1, w1) \<Rightarrow> (Inl err, c1, w1)
              | (Inr responseData, c1, w1) \<Rightarrow>
                  (case handleResponse en c1 responseData of (r, c2) \<Rightarrow> (r, c2, w1))))"

definition TranscribeData ::
  "env \<Rightarrow> WhisperClient \<Rightarrow> world \<Rightarrow> byte list \<Rightarrow> string \<Rightarrow> string option \<Rightarrow> string
     \<Rightarrow> (error + TranscriptionResponse) \<times> WhisperClient \<times> world" where
  "TranscribeData en c w audioData model language task =
     (let language' = normalize_language language;
          encodedData = base64 en audioData;
          request = DataReq \<lparr>d_Command = ''transcribe'', d_AudioData = encodedData,
                      d_Model = model, d_Language = language', d_Task = task\<rparr>
      in case sendRequest en c w request of
           (Inl err, c1, w1) \<Rightarrow> (Inl err, c1, w1)
         | (Inr responseData, c1, w1) \<Rightarrow>
             (case handleResponse en c1 responseData of (r, c2) \<Rightarrow> (r, c2, w1)))"

definition ListModels ::
  "env \<Rightarrow> WhisperClient \<Rightarrow> world \<Rightarrow> (error + ModelsResponse) \<times> WhisperClient \<times> world" where
  "ListModels en c w =
     (let request = ModelsReq \<lparr>m_Command = ''list_models''\<rparr>
      in case sendRequest en c w request of
           (Inl err, c1, w1) \<Rightarrow> (Inl err, c1, w1)
         | (Inr responseData, c1, w1) \<Rightarrow>
             (case parse_models en responseData of
                None \<Rightarrow> (Inl ErrDecode, c1, w1)
              | Some response \<Rightarrow>
                  (if l_Error response \<noteq> [] then (Inl (ErrApp (l_Error response)), c1, w1)
                   else (Inr response, c1, w1))))"

text \<open>
  A context is read through \<^verbatim>\<open>ctx.Done()\<close> and \<^verbatim>\<open>ctx.Err()\<close>: \<open>done_at t\<close> says whether
  the channel is closed at the time \<open>t\<close>. The \<^verbatim>\<open>select\<close> with a \<^verbatim>\<open>default\<close> branch looks
  at it once, at the time of the call.
\<close>

record Context =
  done_at :: "nat \<Rightarrow> bool"
  ctx_Err :: ctx_error

definition TranscribeWithContext ::
  "env \<Rightarrow> Context \<Rightarrow> WhisperClient \<Rightarrow> world \<Rightarrow> string \<Rightarrow> string \<Rightarrow> string option \<Rightarrow> string
     \<Rightarrow> (error + TranscriptionResponse) \<times> WhisperClient \<times> world" where
  "TranscribeWithContext en ctx c w audioPath model language task =
     (if done_at ctx (clock w) then (Inl (ErrCtx (ctx_Err ctx)), c, w)
      else Transcribe en c w audioPath model language task)"

definition TranscribeDataWithContext ::
  "env \<Rightarrow> Context \<Rightarrow> WhisperClient \<Rightarrow> world \<Rightarrow> byte list \<Rightarrow> string \<Rightarrow> string option \<Rightarrow> string
     \<Rightarrow> (error + TranscriptionResponse) \<times> WhisperClient \<times> world" where
  "TranscribeDataWithContext en ctx c w audioData model language task =
     (if done_at ctx (clock w) then (Inl (ErrCtx (ctx_Err ctx)), c, w)
      else TranscribeData en c w audioData model language task)"

definition GetMetrics :: "WhisperClient \<Rightarrow> Metrics" where
  "GetMetrics c = metrics c"

definition Close :: "env \<Rightarrow> WhisperClient \<Rightarrow> world \<Rightarrow> WhisperClient \<times> world" where
  "Close en c w = closeConnection en c w"

text \<open>
  The two transcriptions of part 001: one request type, the language passed on as it
  came, the response decoded in place.
\<close>

definition decode_part_001 ::
  "env \<Rightarrow> byte list \<Rightarrow> error + TranscriptionResponse" where
  "decode_part_001 en responseData =
     (case parse_transcription en responseData of
        None \<Rightarrow> Inl ErrDecode
      | Some response \<Rightarrow>
          (if t_Error response \<noteq> [] then Inl (ErrApp (t_Error response)) else Inr response))"

definition Transcribe_part_001 ::
  "env \<Rightarrow> WhisperClient \<Rightarrow> world \<Rightarrow> string \<Rightarrow> string \<Rightarrow> string option \<Rightarrow> string
     \<Rightarrow> (error + TranscriptionResponse) \<times> WhisperClient \<times> world" where
  "Transcribe_part_001 en c w audioPath model language task =
     (case abs_path en audioPath of
        None \<Rightarrow> (Inl ErrAbs, c, w)
      | Some absPath \<Rightarrow>
          (let request = TransReq \<lparr>r_Command = ''transcribe'', r_AudioPath = absPath,
                           r_AudioData = [], r_Model = model, r_Language = language,
                           r_Task = task\<rparr>
           in case sendRequest_part_001 en c w request of
                (Inl err, c1, w1) \<Rightarrow> (Inl err, c1, w1)
              | (Inr responseData, c1, w1) \<Rightarrow> (decode_part_001 en responseData, c1, w1)))"

definition TranscribeData_part_001 ::
  "env \<Rightarrow> WhisperClient \<Rightarrow> world \<Rightarrow> byte list \<Rightarrow> string \<Rightarrow> string option \<Rightarrow> string
     \<Rightarrow> (error + TranscriptionResponse) \<times> WhisperClient \<times> world" where
  "TranscribeData_part_001 en c w audioData model language task =
     (let encodedData = base64 en audioData;
          request = TransReq \<lparr>r_Command = ''transcribe'', r_AudioPath = [],
                      r_AudioData = encodedData, r_Model = model, r_Language = language,
                      r_Task = task\<rparr>
      in case sendRequest_part_001 en c w request of
           (Inl err, c1, w1) \<Rightarrow> (Inl err, c1, w1)
         | (Inr responseData, c1, w1) \<Rightarrow> (decode_part_001 en responseData, c1, w1))"

section \<open>Reading a trace\<close>

text \<open>The socket an event reads or writes, and the bytes written on a socket.\<close>

fun ev_sock :: "event \<Rightarrow> nat option" where
  "ev_sock (EvWrite k bs ok) = Some k"
| "ev_sock (EvRead k n ok) = Some k"
| "ev_sock e = None"

fun wire_out :: "nat \<Rightarrow> event list \<Rightarrow> byte list" where
  "wire_out k [] = []"
| "wire_out k (EvWrite j bs ok # es) = (if j = k \<and> ok then bs @ wire_out k es else wire_out k es)"
| "wire_out k (e # es) = wire_out k es"

text \<open>The events a call adds to the trace.\<close>

definition delta :: "world \<Rightarrow> world \<Rightarrow> event list" where
  "delta w w' = drop (length (trace w)) (trace w')"

text \<open>The payloads of the writes of a trace, and the traces that touch one socket only.\<close>

fun written :: "event list \<Rightarrow> byte list list" where
  "written [] = []"
| "written (EvWrite k bs ok # es) = bs # written es"
| "written (e # es) = written es"

definition only_on :: "nat \<Rightarrow> event list \<Rightarrow> bool" where
  "only_on k evs = list_all (\<lambda>e. ev_sock e = None \<or> ev_sock e = Some k) evs"

text \<open>The sockets a trace reads or writes, in order.\<close>

definition io_socks :: "event list \<Rightarrow> nat list" where
  "io_socks evs = List.map_filter ev_sock evs"

text \<open>
  The state between two calls: the stored connection is the only open socket, and it was
  opened by a dial of the past.
\<close>

definition one_conn :: "WhisperClient \<Rightarrow> world \<Rightarrow> bool" where
  "one_conn c w =
     (dom (socks w) = set_option (conn c) \<and> (case conn c of None \<Rightarrow> True | Some k \<Rightarrow> k < dials w))"

text \<open>The classes of results that the properties below tell apart.\<close>

fun is_io_error :: "error + 'a \<Rightarrow> bool" where
  "is_io_error (Inl ErrWriteHeader) = True"
| "is_io_error (Inl ErrWriteBody) = True"
| "is_io_error (Inl ErrReadHeader) = True"
| "is_io_error (Inl ErrReadBody) = True"
| "is_io_error r = False"

fun is_response_error :: "error + 'a \<Rightarrow> bool" where
  "is_response_error (Inl ErrDecode) = True"
| "is_response_error (Inl (ErrApp msg)) = True"
| "is_response_error r = False"

fun is_path_error :: "error + 'a \<Rightarrow> bool" where
  "is_path_error (Inl ErrAbs) = True"
| "is_path_error (Inl (ErrNotExist p)) = True"
| "is_path_error r = False"

section \<open>Several callers on one client\<close>

text \<open>
  Goroutines that each run one \<^verbatim>\<open>sendRequest\<close> on the same client, interleaved at the
  calls that touch the lock or the connection. A program counter names the statement a
  goroutine runs next: the acquisition of the lock (\<open>Idle\<close>), \<^verbatim>\<open>ensureConnection\<close> and
  the marshalling, the two writes, the two reads, \<^verbatim>\<open>closeConnection\<close> and the release of
  the lock. The wire records which goroutine wrote or read which half of a frame, in the
  order in which it happened; a write or a read that fails leaves no record.
\<close>

datatype pc = Idle | Ensure | WriteHdr | WriteBody | ReadHdr | ReadBody | Closing | Release | Done

datatype wop = WHeader | WBody | RHeader | RBody

record shared =
  lock_free :: bool
  pcs :: "nat \<Rightarrow> pc"
  wire :: "(nat \<times> wop) list"

definition goto :: "nat \<Rightarrow> pc \<Rightarrow> shared \<Rightarrow> shared" where
  "goto i p s = s\<lparr>pcs := (pcs s)(i := p)\<rparr>"

definition io :: "nat \<Rightarrow> wop \<Rightarrow> shared \<Rightarrow> shared" where
  "io i x s = s\<lparr>wire := wire s @ [(i, x)]\<rparr>"

text \<open>
  One step of the goroutine \<open>i\<close> in part 001, where \<open>ok\<close> is the outcome of the call it
  makes; \<open>None\<close> when the goroutine cannot move (it waits for the channel, or it has
  returned). The receive from the channel \<^verbatim>\<open>connLock\<close> comes first and the deferred send
  last, so the channel is empty during all of \<^verbatim>\<open>sendRequest\<close>; \<^verbatim>\<open>closeConnection\<close> takes
  no lock of its own and is part of the step that fails.
\<close>

definition step_part_001 :: "nat \<Rightarrow> bool \<Rightarrow> shared \<Rightarrow> shared option" where
  "step_part_001 i ok s =
     (case pcs s i of
        Idle \<Rightarrow> if lock_free s then Some (goto i Ensure (s\<lparr>lock_free := False\<rparr>)) else None
      | Ensure \<Rightarrow> Some (goto i (if ok then WriteHdr else Release) s)
      | WriteHdr \<Rightarrow> Some (if ok then goto i WriteBody (io i WHeader s) else goto i Release s)
      | WriteBody \<Rightarrow> Some (if ok then goto i ReadHdr (io i WBody s) else goto i Release s)
      | ReadHdr \<Rightarrow> Some (if ok then goto i ReadBody (io i RHeader s) else goto i Release s)
      | ReadBody \<Rightarrow> Some (if ok then goto i Release (io i RBody s) else goto i Release s)
      | Closing \<Rightarrow> None
      | Release \<Rightarrow> Some (goto i Done (s\<lparr>lock_free := True\<rparr>))
      | Done \<Rightarrow> None)"

text \<open>
  One step in \<^verbatim>\<open>whisper_client.go\<close> and in part 000: the mutex \<^verbatim>\<open>connLock\<close> is locked
  and unlocked inside \<^verbatim>\<open>ensureConnection\<close> and inside \<^verbatim>\<open>closeConnection\<close>, and is free
  while \<^verbatim>\<open>sendRequest\<close> writes and reads.
\<close>

definition step_mutex :: "nat \<Rightarrow> bool \<Rightarrow> shared \<Rightarrow> shared option" where
  "step_mutex i ok s =
     (case pcs s i of
        Idle \<Rightarrow> if lock_free s then Some (goto i Ensure (s\<lparr>lock_free := False\<rparr>)) else None
      | Ensure \<Rightarrow> Some (goto i (if ok then WriteHdr else Done) (s\<lparr>lock_free := True\<rparr>))
      | WriteHdr \<Rightarrow> Some (if ok then goto i WriteBody (io i WHeader s) else goto i Closing s)
      | WriteBody \<Rightarrow> Some (if ok then goto i ReadHdr (io i WBody s) else goto i Closing s)
      | ReadHdr \<Rightarrow> Some (if ok then goto i ReadBody (io i RHeader s) else goto i Closing s)
      | ReadBody \<Rightarrow> Some (if ok then goto i Done (io i RBody s) else goto i Closing s)
      | Closing \<Rightarrow> if lock_free s then Some (goto i Release (s\<lparr>lock_free := False\<rparr>)) else None
      | Release \<Rightarrow> Some (goto i Done (s\<lparr>lock_free := True\<rparr>))
      | Done \<Rightarrow> None)"

text \<open>A schedule says which goroutine moves next and how its call ends.\<close>

fun run :: "(nat \<Rightarrow> bool \<Rightarrow> shared \<Rightarrow> shared option) \<Rightarrow> (nat \<times> bool) list \<Rightarrow> shared
    \<Rightarrow> shared option" where
  "run step [] s = Some s"
| "run step ((i, ok) # sched) s =
     (case step i ok s of None \<Rightarrow> None | Some s' \<Rightarrow> run step sched s')"

definition start :: shared where
  "start = \<lparr>lock_free = True, pcs = (\<lambda>i. Idle), wire = []\<rparr>"

text \<open>The wire and the program counter of a goroutine at the end of a schedule.\<close>

definition wire_of :: "shared option \<Rightarrow> (nat \<times> wop) list option" where
  "wire_of r = map_option wire r"

definition pc_of :: "nat \<Rightarrow> shared option \<Rightarrow> pc option" where
  "pc_of i r = map_option (\<lambda>s. pcs s i) r"

text \<open>
  A wire is serial when every half of a frame other than the header of a request continues
  the frame of the same goroutine: the body of its request after the header, the header of
  its response after that body, the body of the response after that header. The header of
  a request may begin at any point (the call before it may have failed).
\<close>

fun next_op :: "wop \<Rightarrow> wop option" where
  "next_op WHeader = Some WBody"
| "next_op WBody = Some RHeader"
| "next_op RHeader = Some RBody"
| "next_op RBody = None"

definition follows :: "wop \<Rightarrow> wop \<Rightarrow> bool" where
  "follows y x = (next_op y = Some x)"

fun continues :: "(nat \<times> wop) option \<Rightarrow> nat \<times> wop \<Rightarrow> bool" where
  "continues None (i, x) = (x = WHeader)"
| "continues (Some (j, y)) (i, x) = (x = WHeader \<or> j = i \<and> follows y x)"

fun serial_from :: "(nat \<times> wop) option \<Rightarrow> (nat \<times> wop) list \<Rightarrow> bool" where
  "serial_from prev [] = True"
| "serial_from prev (e # es) = (continues prev e \<and> serial_from (Some e) es)"

definition serial :: "(nat \<times> wop) list \<Rightarrow> bool" where
  "serial es = serial_from None es"

fun in_call :: "pc \<Rightarrow> bool" where
  "in_call Idle = False"
| "in_call Done = False"
| "in_call p = True"

definition last_of :: "(nat \<times> wop) option \<Rightarrow> (nat \<times> wop) list \<Rightarrow> (nat \<times> wop) option" where
  "last_of prev es = (if es = [] then prev else Some (last es))"

fun expects :: "pc \<Rightarrow> wop option" where
  "expects WriteBody = Some WHeader"
| "expects ReadHdr = Some WBody"
| "expects ReadBody = Some RHeader"
| "expects p = None"

text \<open>
  What holds of part 001 at every moment: the wire is serial, at most one goroutine is
  between the receive from the channel and the send to it, and the last record of the wire
  is the one that goroutine wrote last.
\<close>

definition exclusive :: "shared \<Rightarrow> bool" where
  "exclusive s =
     (serial (wire s) \<and>
      (\<forall>i. pcs s i \<noteq> Closing) \<and>
      (lock_free s \<longrightarrow> (\<forall>i. \<not> in_call (pcs s i))) \<and>
      (\<not> lock_free s \<longrightarrow> (\<exists>h. in_call (pcs s h) \<and> (\<forall>i. i \<noteq> h \<longrightarrow> \<not> in_call (pcs s i)))) \<and>
      (\<forall>i x. expects (pcs s i) = Some x \<longrightarrow> last_of None (wire s) = Some (i, x)))"

section \<open>A client, a world and environments to run the operations on\<close>

definition NewWhisperClient :: "string \<Rightarrow> string \<Rightarrow> WhisperClient" where
  "NewWhisperClient host port =
     \<lparr>Host = host, Port = port, conn = None,
      metrics = \<lparr>RequestsTotal = 0, ErrorsTotal = 0, ProcessingTimeMs = 0\<rparr>\<rparr>"

definition client0 :: WhisperClient where
  "client0 = NewWhisperClient ''localhost'' ''5000''"

definition world0 :: world where
  "world0 = \<lparr>dials = 0, clock = 0, socks = Map.empty, trace = []\<rparr>"

text \<open>A world in which the socket 0 is open and nothing has been read or written yet.\<close>

definition world1 :: world where
  "world1 = \<lparr>dials = 1, clock = 0, socks = [0 \<mapsto> \<lparr>rpos = 0, wcnt = 0\<rparr>], trace = []\<rparr>"

definition bytes_of :: "string \<Rightarrow> byte list" where
  "bytes_of s = map (\<lambda>c. of_nat (of_char c)) s"

text \<open>
  A text encoding and two parsers that are simple enough to run: the fields as
  \<open>key=value;\<close>, and a response whose first byte says whether it carries an error.
\<close>

definition test_render :: "(string \<times> string) list \<Rightarrow> byte list option" where
  "test_render fs = Some (bytes_of (concat (map (\<lambda>(k, v). k @ ''='' @ v @ '';'') fs)))"

definition test_parse :: "byte list \<Rightarrow> TranscriptionResponse option" where
  "test_parse bs =
     (case bs of
        [] \<Rightarrow> None
      | b # _ \<Rightarrow> Some \<lparr>t_Text = [], t_Language = [], t_Segments = [], t_ProcessingTime = 0,
                    t_Error = (if b = 0 then [] else ''model not found'')\<rparr>)"

definition test_parse_models :: "byte list \<Rightarrow> ModelsResponse option" where
  "test_parse_models bs =
     (case bs of
        [] \<Rightarrow> None
      | b # _ \<Rightarrow> Some \<lparr>AvailableModels = [], LoadedModels = [],
                    l_Error = (if b = 0 then [] else ''model not found'')\<rparr>)"

text \<open>
  \<open>test_env ups wfails reply\<close>: the dial attempts listed in \<open>ups\<close> succeed, on every
  socket the writes listed in \<open>wfails\<close> fail, every peer sends \<open>reply\<close>, every event
  takes one millisecond, and the runtime refuses buffers of \<open>2 ^ 48\<close> bytes and more.
\<close>

definition test_env :: "nat list \<Rightarrow> nat list \<Rightarrow> byte list \<Rightarrow> env" where
  "test_env ups wfails reply =
     \<lparr>dial_ok = (\<lambda>addr k. k \<in> set ups), peer_bytes = (\<lambda>k. reply),
      write_ok = (\<lambda>k j. j \<notin> set wfails),
      alloc_ok = (\<lambda>n. n < 2 ^ 48), cost = (\<lambda>e. 1), render = test_render,
      parse_transcription = test_parse, parse_models = test_parse_models,
      abs_path = (\<lambda>p. if p = [] then None else Some (''/srv/'' @ p)),
      stat_not_exist = (\<lambda>p. p = ''/srv/missing.wav''),
      base64 = (\<lambda>bs. replicate (length bs) CHR ''A'')\<rparr>"

text \<open>One frame whose payload is the single byte 0: a response without an error.\<close>

definition ok_reply :: "byte list" where
  "ok_reply = [0, 0, 0, 0, 0, 0, 0, 1, 0]"

text \<open>
  A backend that accepts two connections, and the client and the world after a first
  \<open>ListModels\<close> against it.
\<close>

definition scenario_env :: env where
  "scenario_env = test_env [0, 1] [] ok_reply"

definition after_models :: "WhisperClient \<times> world" where
  "after_models = snd (ListModels scenario_env client0 world0)"

text \<open>A context with a deadline at the time \<open>d\<close>.\<close>

definition deadline_ctx :: "nat \<Rightarrow> Context" where
  "deadline_ctx d = \<lparr>done_at = (\<lambda>t. d \<le> t), ctx_Err = DeadlineExceeded\<rparr>"

section \<open>Properties of the frame codec\<close>

lemma length_PutUint64: "length (PutUint64 v) = 8"
  by (simp add: PutUint64_def)

lemma bit_byte_at:
  "bit (push_bit m (ucast (ucast (drop_bit m (v::uint64)) :: byte)) :: uint64) n
     = (m \<le> n \<and> n < m + 8 \<and> bit v n)"
  by (auto simp add: bit_simps dest: bit_imp_le_length)

lemma bit_byte_0:
  "bit (ucast (ucast (v::uint64) :: byte) :: uint64) n = (n < 8 \<and> bit v n)"
  by (auto simp add: bit_simps dest: bit_imp_le_length)

lemma Uint64_PutUint64: "Uint64 (PutUint64 v) = v"
proof (rule bit_word_eqI)
  fix n assume n: "n < LENGTH(64)"
  have "bit (Uint64 (PutUint64 v)) n =
     ((n < 8 \<or> 8 \<le> n \<and> n < 8 + 8 \<or> 16 \<le> n \<and> n < 16 + 8 \<or> 24 \<le> n \<and> n < 24 + 8
       \<or> 32 \<le> n \<and> n < 32 + 8 \<or> 40 \<le> n \<and> n < 40 + 8 \<or> 48 \<le> n \<and> n < 48 + 8
       \<or> 56 \<le> n \<and> n < 56 + 8) \<and> bit v n)"
    unfolding Uint64_def PutUint64_def
    apply (simp only: nth_Cons_numeral nth_Cons_0 bit_or_iff bit_byte_at bit_byte_0 list.simps)
    apply (simp add: bit_byte_at bit_byte_0)
    apply blast
    done
  also have "\<dots> = bit v n"
    using n by auto
  finally show "bit (Uint64 (PutUint64 v)) n = bit v n" .
qed

lemma io_ReadFull_prefix:
  assumes "socks w k = Some s" and "drop (rpos s) (peer_bytes en k) = bs @ rest"
  shows "io_ReadFull en w k (length bs) =
           (Some bs, emit en (EvRead k (length bs) True)
              (w\<lparr>socks := (socks w)(k \<mapsto> s\<lparr>rpos := rpos s + length bs\<rparr>)\<rparr>))"
  using assms by (simp add: io_ReadFull_def)

lemma drop_peer_after:
  assumes "drop p xs = bs @ rest"
  shows "drop (p + length bs) xs = rest"
proof -
  have "drop (p + length bs) xs = drop (length bs) (drop p xs)"
    by (simp add: add.commute)
  then show ?thesis
    using assms by simp
qed

lemma socks_emit [simp]: "socks (emit en e w) = socks w"
  by (simp add: emit_def)

lemma trace_emit [simp]: "trace (emit en e w) = trace w @ [e]"
  by (simp add: emit_def)

lemma dials_emit [simp]: "dials (emit en e w) = dials w"
  by (simp add: emit_def)

lemma read_frame_of_frame:
  assumes s: "socks w k = Some s"
    and stream: "drop (rpos s) (peer_bytes en k) = frame payload @ rest"
    and len: "length payload < 2 ^ 64"
    and mem: "alloc_ok en (length payload)"
  shows "fst (read_frame en w k) = Inr payload"
    and "socks (snd (read_frame en w k)) k = Some (s\<lparr>rpos := rpos s + 8 + length payload\<rparr>)"
    and "trace (snd (read_frame en w k)) =
           trace w @ [EvRead k 8 True, EvMake (length payload) True, EvRead k (length payload) True]"
proof -
  let ?h = "PutUint64 (of_nat (length payload))"
  let ?w1 = "emit en (EvRead k 8 True) (w\<lparr>socks := (socks w)(k \<mapsto> s\<lparr>rpos := rpos s + 8\<rparr>)\<rparr>)"
  let ?w2 = "emit en (EvMake (length payload) True) ?w1"
  have n: "unat (Uint64 ?h) = length payload"
    using len by (simp add: Uint64_PutUint64 unat_of_nat)
  have "drop (rpos s) (peer_bytes en k) = ?h @ (payload @ rest)"
    using stream by (simp add: frame_def)
  then have r1: "io_ReadFull en w k headerSize = (Some ?h, ?w1)"
    using io_ReadFull_prefix [OF s, of en ?h "payload @ rest"]
    by (simp add: headerSize_def length_PutUint64)
  have s2: "socks ?w2 k = Some (s\<lparr>rpos := rpos s + 8\<rparr>)"
    by simp
  have "drop (rpos s + 8) (peer_bytes en k) = payload @ rest"
    using drop_peer_after [of "rpos s" "peer_bytes en k" ?h "payload @ rest"] stream
    by (simp add: frame_def length_PutUint64)
  then have r2: "io_ReadFull en ?w2 k (length payload) =
      (Some payload, emit en (EvRead k (length payload) True)
         (?w2\<lparr>socks := (socks ?w2)(k \<mapsto> s\<lparr>rpos := rpos s + 8 + length payload\<rparr>)\<rparr>))"
    using io_ReadFull_prefix [OF s2, of en payload rest] by simp
  have rf: "read_frame en w k =
      (Inr payload, emit en (EvRead k (length payload) True)
         (?w2\<lparr>socks := (socks ?w2)(k \<mapsto> s\<lparr>rpos := rpos s + 8 + length payload\<rparr>)\<rparr>))"
    unfolding read_frame_def r1 by (simp add: Let_def n mem r2)
  show "fst (read_frame en w k) = Inr payload"
    by (simp add: rf)
  show "socks (snd (read_frame en w k)) k = Some (s\<lparr>rpos := rpos s + 8 + length payload\<rparr>)"
    by (simp add: rf)
  show "trace (snd (read_frame en w k)) =
           trace w @ [EvRead k 8 True, EvMake (length payload) True, EvRead k (length payload) True]"
    by (simp add: rf)
qed

section \<open>Properties of the connection lifecycle and of a send\<close>

lemma delta_self [simp]: "delta w w = []"
  by (simp add: delta_def)

lemma delta_emit [simp]: "trace w' = trace w @ es \<Longrightarrow> delta w w' = es"
  by (simp add: delta_def)

lemma dial_loop_3: "dial_loop en c w (Suc (Suc (Suc 0))) = (Some ErrConnect, c, w)"
  by (subst dial_loop.simps) (simp add: maxRetries_def)

lemma dial_loop_2:
  "dial_loop en c w (Suc (Suc 0)) =
     (case net_Dial en w (JoinHostPort (Host c) (Port c)) of
        (Some k, w1) \<Rightarrow> (None, c\<lparr>conn := Some k\<rparr>, w1)
      | (None, w1) \<Rightarrow> (Some ErrConnect, c\<lparr>conn := None\<rparr>, w1))"
  by (subst dial_loop.simps) (simp add: maxRetries_def dial_loop_3 split: prod.splits option.splits)

lemma dial_loop_1:
  "dial_loop en c w (Suc 0) =
     (case net_Dial en w (JoinHostPort (Host c) (Port c)) of
        (Some k, w1) \<Rightarrow> (None, c\<lparr>conn := Some k\<rparr>, w1)
      | (None, w1) \<Rightarrow> dial_loop en (c\<lparr>conn := None\<rparr>) (time_Sleep en retryTimeout w1) (Suc (Suc 0)))"
  by (subst dial_loop.simps) (simp add: maxRetries_def split: prod.splits option.splits)

lemma dial_loop_0:
  "dial_loop en c w 0 =
     (case net_Dial en w (JoinHostPort (Host c) (Port c)) of
        (Some k, w1) \<Rightarrow> (None, c\<lparr>conn := Some k\<rparr>, w1)
      | (None, w1) \<Rightarrow> dial_loop en (c\<lparr>conn := None\<rparr>) (time_Sleep en retryTimeout w1) (Suc 0))"
  by (subst dial_loop.simps) (simp add: maxRetries_def split: prod.splits option.splits)

lemma write_frame_ok:
  assumes "fst (write_frame en w k payload) = None"
  shows "delta w (snd (write_frame en w k payload)) =
           [EvWrite k (PutUint64 (of_nat (length payload))) True, EvWrite k payload True]"
  using assms
  by (auto simp add: write_frame_def conn_Write_def Let_def delta_def
      split: option.splits prod.splits bool.splits if_splits)

lemma wire_out_frame:
  "wire_out k [EvWrite k (PutUint64 (of_nat (length payload))) True, EvWrite k payload True]
     = frame payload"
  by (simp add: frame_def)

lemma only_on_Nil [simp]: "only_on k []"
  by (simp add: only_on_def)

lemma only_on_Cons [simp]:
  "only_on k (e # es) = ((ev_sock e = None \<or> ev_sock e = Some k) \<and> only_on k es)"
  by (simp add: only_on_def)

lemma only_on_append [simp]: "only_on k (xs @ ys) = (only_on k xs \<and> only_on k ys)"
  by (simp add: only_on_def)

lemma written_append [simp]: "written (xs @ ys) = written xs @ written ys"
  by (induction xs rule: written.induct) simp_all

lemma conn_same [simp]: "conn c = x \<Longrightarrow> c\<lparr>conn := x\<rparr> = c"
  by (cases c) auto

text \<open>What a call to ensureConnection does when no connection is stored.\<close>

lemma ensureConnection_absent:
  assumes "conn c = None"
  shows "(let addr = JoinHostPort (Host c) (Port c); d = dials w
          in case ensureConnection en c w of (r, c', w') \<Rightarrow>
            Host c' = Host c \<and> Port c' = Port c \<and> metrics c' = metrics c \<and>
            clock w \<le> clock w' \<and>
            (if dial_ok en addr d then
               r = None \<and> conn c' = Some d \<and> dials w' = d + 1 \<and>
               socks w' = (socks w)(d \<mapsto> \<lparr>rpos = 0, wcnt = 0\<rparr>) \<and>
               trace w' = trace w @ [EvDial addr d True]
             else if dial_ok en addr (d + 1) then
               r = None \<and> conn c' = Some (d + 1) \<and> dials w' = d + 2 \<and>
               socks w' = (socks w)(d + 1 \<mapsto> \<lparr>rpos = 0, wcnt = 0\<rparr>) \<and>
               trace w' = trace w @ [EvDial addr d False, EvSleep retryTimeout, EvDial addr (d + 1) True]
             else if dial_ok en addr (d + 2) then
               r = None \<and> conn c' = Some (d + 2) \<and> dials w' = d + 3 \<and>
               socks w' = (socks w)(d + 2 \<mapsto> \<lparr>rpos = 0, wcnt = 0\<rparr>) \<and>
               trace w' = trace w @ [EvDial addr d False, EvSleep retryTimeout, EvDial addr (d + 1) False,
                             EvSleep retryTimeout, EvDial addr (d + 2) True]
             else
               r = Some ErrConnect \<and> conn c' = None \<and> dials w' = d + 3 \<and> socks w' = socks w \<and>
               trace w' = trace w @ [EvDial addr d False, EvSleep retryTimeout, EvDial addr (d + 1) False,
                             EvSleep retryTimeout, EvDial addr (d + 2) False]))"
  using assms
  by (simp add: ensureConnection_def dial_loop_0 dial_loop_1 dial_loop_2 net_Dial_def time_Sleep_def
      Let_def emit_def)

lemma ensureConnection_sum:
  assumes "ensureConnection en c w = (r, c', w')"
  shows "Host c' = Host c \<and> Port c' = Port c \<and> metrics c' = metrics c \<and>
     (r = None \<longleftrightarrow> conn c' \<noteq> None) \<and>
     (r = None \<or> r = Some ErrConnect) \<and> dials w \<le> dials w' \<and> clock w \<le> clock w' \<and>
     (conn c \<noteq> None \<longrightarrow> c' = c \<and> w' = w) \<and>
     (one_conn c w \<longrightarrow> one_conn c' w') \<and>
     (conn c = None \<longrightarrow> (\<forall>k. conn c' = Some k \<longrightarrow> dials w \<le> k \<and> k < dials w'))"
proof (cases "conn c")
  case (Some k)
  then show ?thesis
    using assms by (auto simp add: ensureConnection_def)
next
  case None
  show ?thesis
    using ensureConnection_absent [OF None, of w en] None assms
    by (auto simp add: Let_def one_conn_def split: prod.splits if_splits)
qed

lemma ensureConnection_trace:
  assumes "ensureConnection en c w = (r, c', w')"
  obtains evs where "trace w' = trace w @ evs" and "list_all (\<lambda>e. ev_sock e = None) evs"
    and "written evs = []"
    and "conn c = None \<Longrightarrow>
           \<exists>es. evs = EvDial (JoinHostPort (Host c) (Port c)) (dials w)
                          (dial_ok en (JoinHostPort (Host c) (Port c)) (dials w)) # es"
proof (cases "conn c")
  case (Some k)
  then have "trace w' = trace w @ []"
    using assms by (auto simp add: ensureConnection_def)
  then show ?thesis
    using Some that [of "[]"] by simp
next
  case None
  show ?thesis
    using ensureConnection_absent [OF None, of w en] None assms
    by (auto simp add: Let_def split: prod.splits if_splits intro!: that)
qed

lemma conn_Write_sum:
  assumes "conn_Write en w k bs = (ok, w')"
  shows "dials w' = dials w \<and> dom (socks w') = dom (socks w) \<and> clock w \<le> clock w' \<and>
         trace w' = trace w @ [EvWrite k bs ok]"
  using assms
  by (auto simp add: conn_Write_def Let_def emit_def split: option.splits if_splits)

lemma io_ReadFull_sum:
  assumes "io_ReadFull en w k n = (r, w')"
  shows "dials w' = dials w \<and> dom (socks w') = dom (socks w) \<and> clock w \<le> clock w' \<and>
         trace w' = trace w @ [EvRead k n (r \<noteq> None)]"
  using assms
  by (auto simp add: io_ReadFull_def Let_def emit_def split: option.splits if_splits)

lemma write_frame_sum:
  assumes "write_frame en w k js = (r, w')"
  shows "dials w' = dials w \<and> dom (socks w') = dom (socks w) \<and> clock w \<le> clock w' \<and>
     (r = None \<or> r = Some ErrWriteHeader \<or> r = Some ErrWriteBody) \<and>
     (\<exists>evs. trace w' = trace w @ evs \<and> only_on k evs \<and>
        prefix (written evs) [PutUint64 (of_nat (length js)), js])"
proof -
  obtain ok1 w1 where 1: "conn_Write en w k (PutUint64 (of_nat (length js))) = (ok1, w1)"
    by (cases "conn_Write en w k (PutUint64 (of_nat (length js)))")
  obtain ok2 w2 where 2: "conn_Write en w1 k js = (ok2, w2)"
    by (cases "conn_Write en w1 k js")
  note s1 = conn_Write_sum [OF 1] and s2 = conn_Write_sum [OF 2]
  show ?thesis
  proof (cases ok1)
    case False
    with assms 1 have "r = Some ErrWriteHeader" "w' = w1"
      by (simp_all add: write_frame_def Let_def)
    with s1 show ?thesis by simp
  next
    case True
    with assms 1 2 have "r = (if ok2 then None else Some ErrWriteBody)" "w' = w2"
      by (auto simp add: write_frame_def Let_def split: bool.splits)
    with s1 s2 show ?thesis by simp
  qed
qed

lemma read_frame_sum:
  assumes "read_frame en w k = (r, w')"
  shows "dials w' = dials w \<and> dom (socks w') = dom (socks w) \<and> clock w \<le> clock w' \<and>
     (case r of Inl e \<Rightarrow> e = ErrReadHeader \<or> e = ErrReadBody \<or> (\<exists>n. e = PanicMakeslice n)
        | Inr buf \<Rightarrow> True) \<and>
     (\<exists>evs. trace w' = trace w @ evs \<and> only_on k evs \<and> written evs = [])"
proof -
  obtain r1 w1 where 1: "io_ReadFull en w k headerSize = (r1, w1)"
    by (cases "io_ReadFull en w k headerSize")
  note s1 = io_ReadFull_sum [OF 1]
  show ?thesis
  proof (cases r1)
    case None
    with assms 1 have "r = Inl ErrReadHeader" "w' = w1"
      by (simp_all add: read_frame_def)
    with s1 show ?thesis by simp
  next
    case (Some headerBuf)
    let ?n = "unat (Uint64 headerBuf)"
    let ?w2 = "emit en (EvMake ?n (alloc_ok en ?n)) w1"
    obtain r2 w3 where 2: "io_ReadFull en ?w2 k ?n = (r2, w3)"
      by (cases "io_ReadFull en ?w2 k ?n")
    note s2 = io_ReadFull_sum [OF 2]
    show ?thesis
    proof (cases "alloc_ok en ?n")
      case False
      with assms 1 Some have "r = Inl (PanicMakeslice ?n)" "w' = ?w2"
        by (simp_all add: read_frame_def Let_def)
      with s1 show ?thesis by (simp add: emit_def)
    next
      case True
      with assms 1 2 Some have "r = (case r2 of None \<Rightarrow> Inl ErrReadBody | Some b \<Rightarrow> Inr b)" "w' = w3"
        by (simp_all add: read_frame_def Let_def split: option.splits)
      with s1 s2 show ?thesis by (auto simp add: emit_def split: option.splits)
    qed
  qed
qed

lemma closeConnection_Some:
  assumes "conn c = Some k"
  shows "closeConnection en c w =
           (c\<lparr>conn := None\<rparr>, emit en (EvClose k) (w\<lparr>socks := (socks w)(k := None)\<rparr>))"
  using assms by (simp add: closeConnection_def conn_Close_def)

lemma only_on_sockless: "list_all (\<lambda>e. ev_sock e = None) evs \<Longrightarrow> only_on k evs"
  by (induction evs) auto

lemma sendRequest_part_001_cases [consumes 1, case_names connect marshal write_fail read_fail panic ok]:
  assumes "sendRequest_part_001 en c w req = (r, c', w')"
  obtains
    (connect) "ensureConnection en c w = (Some ErrConnect, c', w')" "r = Inl ErrConnect"
  | (marshal) k where "ensureConnection en c w = (None, c', w')" "conn c' = Some k"
      "json_Marshal en req = None" "r = Inl ErrMarshal"
  | (write_fail) k c1 w1 js e w2 where "ensureConnection en c w = (None, c1, w1)" "conn c1 = Some k"
      "json_Marshal en req = Some js" "write_frame en w1 k js = (Some e, w2)"
      "r = Inl e" "c' = c1\<lparr>conn := None\<rparr>"
      "w' = emit en (EvClose k) (w2\<lparr>socks := (socks w2)(k := None)\<rparr>)"
  | (read_fail) k c1 w1 js w2 e w3 where "ensureConnection en c w = (None, c1, w1)" "conn c1 = Some k"
      "json_Marshal en req = Some js" "write_frame en w1 k js = (None, w2)"
      "read_frame en w2 k = (Inl e, w3)" "\<not> is_panic e"
      "r = Inl e" "c' = c1\<lparr>conn := None\<rparr>"
      "w' = emit en (EvClose k) (w3\<lparr>socks := (socks w3)(k := None)\<rparr>)"
  | (panic) k w1 js w2 e where "ensureConnection en c w = (None, c', w1)" "conn c' = Some k"
      "json_Marshal en req = Some js" "write_frame en w1 k js = (None, w2)"
      "read_frame en w2 k = (Inl e, w')" "is_panic e" "r = Inl e"
  | (ok) k w1 js w2 buf where "ensureConnection en c w = (None, c', w1)" "conn c' = Some k"
      "json_Marshal en req = Some js" "write_frame en w1 k js = (None, w2)"
      "read_frame en w2 k = (Inr buf, w')" "r = Inr buf"
proof -
  obtain r0 c1 w1 where ec: "ensureConnection en c w = (r0, c1, w1)"
    by (cases "ensureConnection en c w")
  note E = ensureConnection_sum [OF ec]
  show thesis
  proof (cases r0)
    case (Some err)
    with E have "err = ErrConnect" by simp
    with assms ec Some show thesis
      by (intro connect) (simp_all add: sendRequest_part_001_def)
  next
    case None
    with E obtain k where k: "conn c1 = Some k"
      by auto
    show thesis
    proof (cases "json_Marshal en req")
      case nomarshal: None
      with assms ec \<open>r0 = None\<close> k show thesis
        by (intro marshal [of k]) (simp_all add: sendRequest_part_001_def)
    next
      case (Some js)
      obtain r2 w2 where wf: "write_frame en w1 k js = (r2, w2)"
        by (cases "write_frame en w1 k js")
      show thesis
      proof (cases r2)
        case werr: (Some e)
        with assms ec \<open>r0 = None\<close> Some k wf show thesis
          by (intro write_fail [of c1 w1 k js e w2])
            (simp_all add: sendRequest_part_001_def closeConnection_Some)
      next
        case wok: None
        obtain r3 w3 where rf: "read_frame en w2 k = (r3, w3)"
          by (cases "read_frame en w2 k")
        show thesis
        proof (cases r3)
          case (Inr buf)
          with assms ec \<open>r0 = None\<close> Some k wf wok rf show thesis
            by (intro ok [of w1 k js w2 buf]) (simp_all add: sendRequest_part_001_def)
        next
          case (Inl e)
          show thesis
          proof (cases "is_panic e")
            case True
            with assms ec \<open>r0 = None\<close> Some k wf wok rf Inl show thesis
              by (intro panic [of w1 k js w2 e]) (simp_all add: sendRequest_part_001_def)
          next
            case False
            with assms ec \<open>r0 = None\<close> Some k wf wok rf Inl show thesis
              by (intro read_fail [of c1 w1 k js w2 e w3])
                (simp_all add: sendRequest_part_001_def closeConnection_Some)
          qed
        qed
      qed
    qed
  qed
qed

lemma sendRequest_part_001_client:
  assumes "sendRequest_part_001 en c w req = (r, c', w')"
  shows "Host c' = Host c \<and> Port c' = Port c \<and> metrics c' = metrics c"
  using assms
proof (cases rule: sendRequest_part_001_cases)
  case connect
  then show ?thesis using ensureConnection_sum by blast
next
  case (marshal k)
  then show ?thesis using ensureConnection_sum by blast
next
  case (write_fail k c1 w1 js e w2)
  then show ?thesis using ensureConnection_sum [OF write_fail(1)] by simp
next
  case (read_fail k c1 w1 js w2 e w3)
  then show ?thesis using ensureConnection_sum [OF read_fail(1)] by simp
next
  case (panic k w1 js w2 e)
  then show ?thesis using ensureConnection_sum by blast
next
  case (ok k w1 js w2 buf)
  then show ?thesis using ensureConnection_sum by blast
qed

lemma sendRequest_part_001_clock:
  assumes "sendRequest_part_001 en c w req = (r, c', w')"
  shows "clock w \<le> clock w' \<and> dials w \<le> dials w'"
  using assms
proof (cases rule: sendRequest_part_001_cases)
  case connect
  then show ?thesis using ensureConnection_sum by blast
next
  case (marshal k)
  then show ?thesis using ensureConnection_sum by blast
next
  case (write_fail k c1 w1 js e w2)
  then show ?thesis
    using ensureConnection_sum [OF write_fail(1)] write_frame_sum [OF write_fail(4)]
    by (simp add: emit_def)
next
  case (read_fail k c1 w1 js w2 e w3)
  then show ?thesis
    using ensureConnection_sum [OF read_fail(1)] write_frame_sum [OF read_fail(4)]
      read_frame_sum [OF read_fail(5)]
    by (simp add: emit_def)
next
  case (panic k w1 js w2 e)
  then show ?thesis
    using ensureConnection_sum [OF panic(1)] write_frame_sum [OF panic(4)]
      read_frame_sum [OF panic(5)]
    by simp
next
  case (ok k w1 js w2 buf)
  then show ?thesis
    using ensureConnection_sum [OF ok(1)] write_frame_sum [OF ok(4)]
      read_frame_sum [OF ok(5)]
    by simp
qed

text \<open>The errors of a send are never those of the decoding of a response.\<close>

lemma sendRequest_part_001_errors:
  assumes "sendRequest_part_001 en c w req = (Inl e, c', w')"
  shows "e = ErrConnect \<or> e = ErrMarshal \<or> e = ErrWriteHeader \<or> e = ErrWriteBody \<or>
         e = ErrReadHeader \<or> e = ErrReadBody \<or> (\<exists>n. e = PanicMakeslice n)"
  using assms
proof (cases rule: sendRequest_part_001_cases)
  case (write_fail k c1 w1 js e w2)
  then show ?thesis using write_frame_sum [OF write_fail(4)] by auto
next
  case (read_fail k c1 w1 js w2 e w3)
  then show ?thesis using read_frame_sum [OF read_fail(5)] by auto
next
  case (panic k w1 js w2 e)
  then show ?thesis using read_frame_sum [OF panic(5)] by auto
qed simp_all

lemma sendRequest_part_001_ok:
  assumes "sendRequest_part_001 en c w req = (Inr buf, c', w')"
  shows "conn c' \<noteq> None"
  using assms by (cases rule: sendRequest_part_001_cases) simp_all

lemma sendRequest_part_001_teardown:
  assumes "sendRequest_part_001 en c w req = (r, c', w')" and "is_io_error r"
  shows "conn c' = None \<and> (\<exists>k es. trace w' = es @ [EvClose k] \<and> socks w' k = None)"
  using assms
proof (cases rule: sendRequest_part_001_cases)
  case (write_fail k c1 w1 js e w2)
  then show ?thesis by simp
next
  case (read_fail k c1 w1 js w2 e w3)
  then show ?thesis by simp
next
  case (panic k w1 js w2 e)
  then show ?thesis using assms(2) read_frame_sum [OF panic(5)] by auto
qed simp_all

lemma sendRequest_part_001_one_conn:
  assumes "sendRequest_part_001 en c w req = (r, c', w')" and "one_conn c w"
  shows "one_conn c' w'"
  using assms(1)
proof (cases rule: sendRequest_part_001_cases)
  case connect
  then show ?thesis using ensureConnection_sum assms(2) by blast
next
  case (marshal k)
  then show ?thesis using ensureConnection_sum assms(2) by blast
next
  case (write_fail k c1 w1 js e w2)
  have "one_conn c1 w1"
    using ensureConnection_sum [OF write_fail(1)] assms(2) by blast
  then show ?thesis
    using write_fail write_frame_sum [OF write_fail(4)]
    by (simp add: one_conn_def)
next
  case (read_fail k c1 w1 js w2 e w3)
  have "one_conn c1 w1"
    using ensureConnection_sum [OF read_fail(1)] assms(2) by blast
  then show ?thesis
    using read_fail write_frame_sum [OF read_fail(4)] read_frame_sum [OF read_fail(5)]
    by (simp add: one_conn_def)
next
  case (panic k w1 js w2 e)
  have "one_conn c' w1"
    using ensureConnection_sum [OF panic(1)] assms(2) by blast
  then show ?thesis
    using panic write_frame_sum [OF panic(4)] read_frame_sum [OF panic(5)]
    by (simp add: one_conn_def)
next
  case (ok k w1 js w2 buf)
  have "one_conn c' w1"
    using ensureConnection_sum [OF ok(1)] assms(2) by blast
  then show ?thesis
    using ok write_frame_sum [OF ok(4)] read_frame_sum [OF ok(5)]
    by (simp add: one_conn_def)
qed

lemma sendRequest_part_001_trace:
  assumes "sendRequest_part_001 en c w req = (r, c', w')"
  shows "\<exists>evs k. trace w' = trace w @ evs \<and> only_on k evs \<and>
        (conn c = Some k \<or> conn c = None \<and> dials w \<le> k) \<and> (conn c' = None \<or> conn c' = Some k) \<and>
        (case json_Marshal en req of
           None \<Rightarrow> written evs = []
         | Some js \<Rightarrow> prefix (written evs) [PutUint64 (of_nat (length js)), js]) \<and>
        (conn c = None \<longrightarrow>
           (\<exists>es. evs = EvDial (JoinHostPort (Host c) (Port c)) (dials w)
                          (dial_ok en (JoinHostPort (Host c) (Port c)) (dials w)) # es))"
proof -
  obtain r0 c1 w1 where ec: "ensureConnection en c w = (r0, c1, w1)"
    by (cases "ensureConnection en c w")
  note E = ensureConnection_sum [OF ec]
  obtain evs0 where evs0: "trace w1 = trace w @ evs0" "list_all (\<lambda>e. ev_sock e = None) evs0"
    "written evs0 = []"
    "conn c = None \<longrightarrow> (\<exists>es. evs0 = EvDial (JoinHostPort (Host c) (Port c)) (dials w)
                          (dial_ok en (JoinHostPort (Host c) (Port c)) (dials w)) # es)"
    using ensureConnection_trace [OF ec] by metis
  have on0: "only_on k evs0" for k
    using evs0(2) by (rule only_on_sockless)
  have first: "conn c = None \<longrightarrow>
      (\<exists>es. evs0 @ more = EvDial (JoinHostPort (Host c) (Port c)) (dials w)
                          (dial_ok en (JoinHostPort (Host c) (Port c)) (dials w)) # es)" for more
    using evs0(4) by auto
  have kc: "conn c = Some k \<or> conn c = None \<and> dials w \<le> k" if "conn c1 = Some k" for k
    using E that by (cases "conn c") auto
  let ?P = "\<lambda>evs k. trace w' = trace w @ evs \<and> only_on k evs \<and>
        (conn c = Some k \<or> conn c = None \<and> dials w \<le> k) \<and> (conn c' = None \<or> conn c' = Some k) \<and>
        (case json_Marshal en req of
           None \<Rightarrow> written evs = []
         | Some js \<Rightarrow> prefix (written evs) [PutUint64 (of_nat (length js)), js]) \<and>
        (conn c = None \<longrightarrow>
           (\<exists>es. evs = EvDial (JoinHostPort (Host c) (Port c)) (dials w)
                          (dial_ok en (JoinHostPort (Host c) (Port c)) (dials w)) # es))"
  from assms show ?thesis
  proof (cases rule: sendRequest_part_001_cases)
    case connect
    with ec E have "conn c = None" "conn c' = None" "w' = w1"
      by auto
    then have "?P evs0 (dials w)"
      using evs0 on0 by (simp split: option.splits)
    then show ?thesis by - (rule exI, rule exI, assumption)
  next
    case (marshal k)
    with ec have eq: "c' = c1" "w' = w1" by simp_all
    have "?P evs0 k"
      using evs0 on0 kc [of k] marshal eq by simp
    then show ?thesis by - (rule exI, rule exI, assumption)
  next
    case (write_fail k c0 w0 js e w2)
    with ec have eq: "c0 = c1" "w0 = w1" by simp_all
    from write_frame_sum [OF write_fail(4)] eq obtain evs1 where
      evs1: "trace w2 = trace w1 @ evs1" "only_on k evs1"
        "prefix (written evs1) [PutUint64 (of_nat (length js)), js]"
      by blast
    have "?P (evs0 @ evs1 @ [EvClose k]) k"
      using evs0(1,3) on0 [of k] evs1 kc [of k] write_fail eq first [of "evs1 @ [EvClose k]"]
      by (simp split: option.splits)
    then show ?thesis by - (rule exI, rule exI, assumption)
  next
    case (read_fail k c0 w0 js w2 e w3)
    with ec have eq: "c0 = c1" "w0 = w1" by simp_all
    from write_frame_sum [OF read_fail(4)] eq obtain evs1 where
      evs1: "trace w2 = trace w1 @ evs1" "only_on k evs1"
        "prefix (written evs1) [PutUint64 (of_nat (length js)), js]"
      by blast
    from read_frame_sum [OF read_fail(5)] obtain evs2 where
      evs2: "trace w3 = trace w2 @ evs2" "only_on k evs2" "written evs2 = []"
      by blast
    have "?P (evs0 @ evs1 @ evs2 @ [EvClose k]) k"
      using evs0(1,3) on0 [of k] evs1 evs2 kc [of k] read_fail eq
        first [of "evs1 @ evs2 @ [EvClose k]"]
      by (simp split: option.splits)
    then show ?thesis by - (rule exI, rule exI, assumption)
  next
    case (panic k w0 js w2 e)
    with ec have eq: "c' = c1" "w0 = w1" by simp_all
    from write_frame_sum [OF panic(4)] eq obtain evs1 where
      evs1: "trace w2 = trace w1 @ evs1" "only_on k evs1"
        "prefix (written evs1) [PutUint64 (of_nat (length js)), js]"
      by blast
    from read_frame_sum [OF panic(5)] obtain evs2 where
      evs2: "trace w' = trace w2 @ evs2" "only_on k evs2" "written evs2 = []"
      by blast
    have "?P (evs0 @ evs1 @ evs2) k"
      using evs0(1,3) on0 [of k] evs1 evs2 kc [of k] panic eq first [of "evs1 @ evs2"]
      by (simp split: option.splits)
    then show ?thesis by - (rule exI, rule exI, assumption)
  next
    case (ok k w0 js w2 buf)
    with ec have eq: "c' = c1" "w0 = w1" by simp_all
    from write_frame_sum [OF ok(4)] eq obtain evs1 where
      evs1: "trace w2 = trace w1 @ evs1" "only_on k evs1"
        "prefix (written evs1) [PutUint64 (of_nat (length js)), js]"
      by blast
    from read_frame_sum [OF ok(5)] obtain evs2 where
      evs2: "trace w' = trace w2 @ evs2" "only_on k evs2" "written evs2 = []"
      by blast
    have "?P (evs0 @ evs1 @ evs2) k"
      using evs0(1,3) on0 [of k] evs1 evs2 kc [of k] ok eq first [of "evs1 @ evs2"]
      by (simp split: option.splits)
    then show ?thesis by - (rule exI, rule exI, assumption)
  qed
qed

lemma sendRequest_unfold:
  assumes "sendRequest en c w req = (r, c', w')"
  obtains c1 where "sendRequest_part_001 en (add_RequestsTotal c 1) w req = (r, c1, w')"
    and "c' = add_ProcessingTimeMs c1 (of_nat (clock w' - clock w))"
  using assms by (auto simp add: sendRequest_def Let_def split: prod.splits)

lemma add_simps [simp]:
  "conn (add_RequestsTotal c d) = conn c" "Host (add_RequestsTotal c d) = Host c"
  "Port (add_RequestsTotal c d) = Port c"
  "conn (add_ErrorsTotal c d) = conn c" "Host (add_ErrorsTotal c d) = Host c"
  "Port (add_ErrorsTotal c d) = Port c"
  "conn (add_ProcessingTimeMs c d) = conn c" "Host (add_ProcessingTimeMs c d) = Host c"
  "Port (add_ProcessingTimeMs c d) = Port c"
  "RequestsTotal (metrics (add_RequestsTotal c d)) = RequestsTotal (metrics c) + d"
  "ErrorsTotal (metrics (add_RequestsTotal c d)) = ErrorsTotal (metrics c)"
  "RequestsTotal (metrics (add_ErrorsTotal c d)) = RequestsTotal (metrics c)"
  "ErrorsTotal (metrics (add_ErrorsTotal c d)) = ErrorsTotal (metrics c) + d"
  "RequestsTotal (metrics (add_ProcessingTimeMs c d)) = RequestsTotal (metrics c)"
  "ErrorsTotal (metrics (add_ProcessingTimeMs c d)) = ErrorsTotal (metrics c)"
  by (simp_all add: add_RequestsTotal_def add_ErrorsTotal_def add_ProcessingTimeMs_def)

lemma one_conn_add [simp]:
  "one_conn (add_RequestsTotal c d) w = one_conn c w"
  "one_conn (add_ErrorsTotal c d) w = one_conn c w"
  "one_conn (add_ProcessingTimeMs c d) w = one_conn c w"
  by (simp_all add: one_conn_def)

lemma sendRequest_metrics:
  assumes "sendRequest en c w req = (r, c', w')"
  shows "RequestsTotal (metrics c') = RequestsTotal (metrics c) + 1 \<and>
         ErrorsTotal (metrics c') = ErrorsTotal (metrics c)"
  using assms
proof (rule sendRequest_unfold)
  fix c1
  assume "sendRequest_part_001 en (add_RequestsTotal c 1) w req = (r, c1, w')"
    and c': "c' = add_ProcessingTimeMs c1 (of_nat (clock w' - clock w))"
  then have "metrics c1 = metrics (add_RequestsTotal c 1)"
    using sendRequest_part_001_client by blast
  with c' show ?thesis by simp
qed

section \<open>Properties of the operations\<close>

lemma io_ReadFull_open:
  assumes "socks w k = Some s" and "drop (rpos s) (peer_bytes en k) = rest"
  shows "fst (io_ReadFull en w k n) = (if n \<le> length rest then Some (take n rest) else None)"
    and "trace (snd (io_ReadFull en w k n)) = trace w @ [EvRead k n (n \<le> length rest)]"
    and "socks (snd (io_ReadFull en w k n)) k =
           Some (s\<lparr>rpos := rpos s + (if n \<le> length rest then n else length rest)\<rparr>)"
  using assms by (auto simp add: io_ReadFull_def Let_def)

lemma net_Dial_sum:
  assumes "net_Dial en w addr = (r, w')"
  shows "dials w' = dials w + 1 \<and> clock w \<le> clock w' \<and>
         trace w' = trace w @ [EvDial addr (dials w) (dial_ok en addr (dials w))] \<and>
         (if dial_ok en addr (dials w)
          then r = Some (dials w) \<and> socks w' = (socks w)(dials w \<mapsto> \<lparr>rpos = 0, wcnt = 0\<rparr>)
          else r = None \<and> socks w' = socks w)"
  using assms by (auto simp add: net_Dial_def Let_def emit_def)

lemma sendRequestWithContext_cases [consumes 1, case_names marshal dial write_fail read]:
  assumes "sendRequestWithContext en c w req = (r, c', w')"
  obtains
    (marshal) "json_Marshal en req = None" "r = Inl ErrMarshal" "w' = w"
  | (dial) js where "json_Marshal en req = Some js"
      "net_Dial en w (JoinHostPort (Host c) (Port c)) = (None, w')" "r = Inl ErrDial"
  | (write_fail) js k w1 e w2 where "json_Marshal en req = Some js"
      "net_Dial en w (JoinHostPort (Host c) (Port c)) = (Some k, w1)"
      "write_frame en w1 k js = (Some e, w2)" "r = Inl e" "w' = conn_Close en w2 k"
  | (read) js k w1 w2 w3 where "json_Marshal en req = Some js"
      "net_Dial en w (JoinHostPort (Host c) (Port c)) = (Some k, w1)"
      "write_frame en w1 k js = (None, w2)" "read_frame en w2 k = (r, w3)"
      "w' = conn_Close en w3 k"
proof (cases "json_Marshal en req")
  case None
  with assms show thesis
    by (intro marshal) (simp_all add: sendRequestWithContext_def Let_def)
next
  case (Some js)
  obtain r1 w1 where nd: "net_Dial en w (JoinHostPort (Host c) (Port c)) = (r1, w1)"
    by (cases "net_Dial en w (JoinHostPort (Host c) (Port c))")
  show thesis
  proof (cases r1)
    case None
    with assms Some nd show thesis
      by (intro dial [of js]) (simp_all add: sendRequestWithContext_def Let_def)
  next
    case k: (Some k)
    obtain r2 w2 where wf: "write_frame en w1 k js = (r2, w2)"
      by (cases "write_frame en w1 k js")
    show thesis
    proof (cases r2)
      case (Some e)
      with assms \<open>json_Marshal en req = Some js\<close> nd k wf show thesis
        by (intro write_fail [of js k w1 e w2]) (simp_all add: sendRequestWithContext_def Let_def)
    next
      case None
      obtain r3 w3 where rf: "read_frame en w2 k = (r3, w3)"
        by (cases "read_frame en w2 k")
      with assms \<open>json_Marshal en req = Some js\<close> nd k wf None show thesis
        by (intro read [of js k w1 w2 w3]) (simp_all add: sendRequestWithContext_def Let_def)
    qed
  qed
qed

lemma sendRequestWithContext_client:
  assumes "sendRequestWithContext en c w req = (r, c', w')"
  shows "c' = add_ProcessingTimeMs (add_RequestsTotal c 1) (of_nat (clock w' - clock w))"
  using assms by (auto simp add: sendRequestWithContext_def Let_def split: prod.splits)

lemma sendRequestWithContext_errors:
  assumes "sendRequestWithContext en c w req = (Inl e, c', w')"
  shows "e = ErrMarshal \<or> e = ErrDial \<or> e = ErrWriteHeader \<or> e = ErrWriteBody \<or>
         e = ErrReadHeader \<or> e = ErrReadBody \<or> (\<exists>n. e = PanicMakeslice n)"
  using assms
proof (cases rule: sendRequestWithContext_cases)
  case (write_fail js k w1 e w2)
  then show ?thesis using write_frame_sum [OF write_fail(3)] by auto
next
  case (read js k w1 w2 w3)
  then show ?thesis using read_frame_sum [OF read(4)] by auto
qed simp_all

lemma sendRequestWithContext_trace:
  assumes "sendRequestWithContext en c w req = (r, c', w')"
  shows "\<exists>evs. trace w' = trace w @ evs \<and> only_on (dials w) evs \<and>
     (case json_Marshal en req of
        None \<Rightarrow> written evs = []
      | Some js \<Rightarrow> prefix (written evs) [PutUint64 (of_nat (length js)), js]) \<and>
     (evs = [] \<or> evs = [EvDial (JoinHostPort (Host c) (Port c)) (dials w) False] \<or>
      (\<exists>es. evs = EvDial (JoinHostPort (Host c) (Port c)) (dials w) True # es @ [EvClose (dials w)]))"
  using assms
proof (cases rule: sendRequestWithContext_cases)
  case marshal
  then show ?thesis by simp
next
  case (dial js)
  then show ?thesis
    using net_Dial_sum [OF dial(2)] by (auto split: if_splits)
next
  case (write_fail js k w1 e w2)
  note D = net_Dial_sum [OF write_fail(2)]
  from D have k: "k = dials w" and ok: "dial_ok en (JoinHostPort (Host c) (Port c)) (dials w)"
    by (auto split: if_splits)
  from write_frame_sum [OF write_fail(3)] obtain evs1 where
    evs1: "trace w2 = trace w1 @ evs1" "only_on k evs1"
      "prefix (written evs1) [PutUint64 (of_nat (length js)), js]"
    by blast
  have "trace w' = trace w @ (EvDial (JoinHostPort (Host c) (Port c)) (dials w) True # evs1 @ [EvClose (dials w)])"
    using write_fail(5) D evs1 k ok by (simp add: conn_Close_def)
  then show ?thesis
    using evs1 k write_fail(1)
    by (intro exI [of _ "EvDial (JoinHostPort (Host c) (Port c)) (dials w) True # evs1 @ [EvClose (dials w)]"])
      simp
next
  case (read js k w1 w2 w3)
  note D = net_Dial_sum [OF read(2)]
  from D have k: "k = dials w" and ok: "dial_ok en (JoinHostPort (Host c) (Port c)) (dials w)"
    by (auto split: if_splits)
  from write_frame_sum [OF read(3)] obtain evs1 where
    evs1: "trace w2 = trace w1 @ evs1" "only_on k evs1"
      "prefix (written evs1) [PutUint64 (of_nat (length js)), js]"
    by blast
  from read_frame_sum [OF read(4)] obtain evs2 where
    evs2: "trace w3 = trace w2 @ evs2" "only_on k evs2" "written evs2 = []"
    by blast
  have "trace w' = trace w @ (EvDial (JoinHostPort (Host c) (Port c)) (dials w) True # (evs1 @ evs2) @ [EvClose (dials w)])"
    using read(5) D evs1 evs2 k ok by (simp add: conn_Close_def)
  then show ?thesis
    using evs1 evs2 k read(1)
    by (intro exI [of _ "EvDial (JoinHostPort (Host c) (Port c)) (dials w) True # (evs1 @ evs2) @ [EvClose (dials w)]"])
      simp
qed

lemma sendRequestWithContext_socks:
  assumes "sendRequestWithContext en c w req = (r, c', w')" and "dials w \<notin> dom (socks w)"
  shows "dom (socks w') = dom (socks w) \<and> dials w \<le> dials w'"
  using assms(1)
proof (cases rule: sendRequestWithContext_cases)
  case marshal
  then show ?thesis by simp
next
  case (dial js)
  then show ?thesis
    using net_Dial_sum [OF dial(2)] by (auto split: if_splits)
next
  case (write_fail js k w1 e w2)
  then show ?thesis
    using net_Dial_sum [OF write_fail(2)] write_frame_sum [OF write_fail(3)] assms(2)
    by (auto simp add: conn_Close_def split: if_splits)
next
  case (read js k w1 w2 w3)
  then show ?thesis
    using net_Dial_sum [OF read(2)] write_frame_sum [OF read(3)] read_frame_sum [OF read(4)] assms(2)
    by (auto simp add: conn_Close_def split: if_splits)
qed

lemma handleResponse_sum:
  assumes "handleResponse en c responseData = (r, c')"
  shows "conn c' = conn c \<and> Host c' = Host c \<and> Port c' = Port c \<and>
         RequestsTotal (metrics c') = RequestsTotal (metrics c) \<and>
         ErrorsTotal (metrics c') = ErrorsTotal (metrics c) + (if is_response_error r then 1 else 0) \<and>
         \<not> is_path_error r \<and> \<not> is_io_error r"
  using assms by (auto simp add: handleResponse_def split: option.splits if_splits)

lemma sendRequest_errors:
  assumes "sendRequest en c w req = (Inl e, c', w')"
  shows "\<not> is_response_error (Inl e :: error + 'a) \<and> \<not> is_path_error (Inl e :: error + 'a)"
  using assms
proof (rule sendRequest_unfold)
  fix c1
  assume "sendRequest_part_001 en (add_RequestsTotal c 1) w req = (Inl e, c1, w')"
  from sendRequest_part_001_errors [OF this] show ?thesis
    by auto
qed

lemma TranscribeData_unfold:
  assumes "TranscribeData en c w audioData model language task = (r, c', w')"
  obtains (send) e where
      "sendRequest en c w (DataReq \<lparr>d_Command = ''transcribe'', d_AudioData = base64 en audioData,
          d_Model = model, d_Language = normalize_language language, d_Task = task\<rparr>) = (Inl e, c', w')"
      "r = Inl e"
  | (response) responseData c1 where
      "sendRequest en c w (DataReq \<lparr>d_Command = ''transcribe'', d_AudioData = base64 en audioData,
          d_Model = model, d_Language = normalize_language language, d_Task = task\<rparr>)
        = (Inr responseData, c1, w')"
      "handleResponse en c1 responseData = (r, c')"
  using assms
  by (auto simp add: TranscribeData_def Let_def split: prod.splits sum.splits)

lemma Transcribe_part_000_unfold:
  assumes "Transcribe_part_000 en c w audioPath model language task = (r, c', w')"
  obtains (abs) "abs_path en audioPath = None" "r = Inl ErrAbs" "c' = c" "w' = w"
  | (send) absPath e where "abs_path en audioPath = Some absPath"
      "sendRequest en c w (FileReq \<lparr>f_Command = ''transcribe'', f_AudioPath = absPath,
          f_Model = model, f_Language = normalize_language language, f_Task = task\<rparr>) = (Inl e, c', w')"
      "r = Inl e"
  | (response) absPath responseData c1 where "abs_path en audioPath = Some absPath"
      "sendRequest en c w (FileReq \<lparr>f_Command = ''transcribe'', f_AudioPath = absPath,
          f_Model = model, f_Language = normalize_language language, f_Task = task\<rparr>)
        = (Inr responseData, c1, w')"
      "handleResponse en c1 responseData = (r, c')"
  using assms
  by (auto simp add: Transcribe_part_000_def Let_def split: prod.splits sum.splits option.splits)

lemma Transcribe_unfold:
  assumes "Transcribe en c w audioPath model language task = (r, c', w')"
  obtains (abs) "abs_path en audioPath = None" "r = Inl ErrAbs" "c' = c" "w' = w"
  | (missing) absPath where "abs_path en audioPath = Some absPath" "stat_not_exist en absPath"
      "r = Inl (ErrNotExist absPath)" "c' = c" "w' = w"
  | (send) absPath e where "abs_path en audioPath = Some absPath" "\<not> stat_not_exist en absPath"
      "sendRequestWithContext en c w (FileReq \<lparr>f_Command = ''transcribe'', f_AudioPath = absPath,
          f_Model = model, f_Language = normalize_language language, f_Task = task\<rparr>) = (Inl e, c', w')"
      "r = Inl (if is_panic e then e else ErrSend e)"
  | (response) absPath responseData c1 where "abs_path en audioPath = Some absPath"
      "\<not> stat_not_exist en absPath"
      "sendRequestWithContext en c w (FileReq \<lparr>f_Command = ''transcribe'', f_AudioPath = absPath,
          f_Model = model, f_Language = normalize_language language, f_Task = task\<rparr>)
        = (Inr responseData, c1, w')"
      "handleResponse en c1 responseData = (r, c')"
  using assms
  by (auto simp add: Transcribe_def Let_def split: prod.splits sum.splits option.splits if_splits)

lemma ListModels_unfold:
  assumes "ListModels en c w = (r, c', w')"
  obtains (send) e where
      "sendRequest en c w (ModelsReq \<lparr>m_Command = ''list_models''\<rparr>) = (Inl e, c', w')" "r = Inl e"
  | (response) responseData where
      "sendRequest en c w (ModelsReq \<lparr>m_Command = ''list_models''\<rparr>) = (Inr responseData, c', w')"
  using assms
  by (auto simp add: ListModels_def Let_def split: prod.splits sum.splits option.splits if_splits)

lemma TranscribeData_metrics:
  assumes "TranscribeData en c w audioData model language task = (r, c', w')"
  shows "RequestsTotal (metrics c') = RequestsTotal (metrics c) + 1 \<and>
         ErrorsTotal (metrics c') = ErrorsTotal (metrics c) + (if is_response_error r then 1 else 0)"
  using assms
proof (cases rule: TranscribeData_unfold)
  case (send e)
  then show ?thesis
    using sendRequest_metrics [OF send(1)] sendRequest_errors [OF send(1), where 'a = TranscriptionResponse] by simp
next
  case (response responseData c1)
  then show ?thesis
    using sendRequest_metrics [OF response(1)] handleResponse_sum [OF response(2)] by simp
qed

lemma Transcribe_part_000_metrics:
  assumes "Transcribe_part_000 en c w audioPath model language task = (r, c', w')"
  shows "RequestsTotal (metrics c') = RequestsTotal (metrics c) + (if is_path_error r then 0 else 1) \<and>
         ErrorsTotal (metrics c') = ErrorsTotal (metrics c) + (if is_response_error r then 1 else 0)"
  using assms
proof (cases rule: Transcribe_part_000_unfold)
  case abs
  then show ?thesis by simp
next
  case (send absPath e)
  then show ?thesis
    using sendRequest_metrics [OF send(2)] sendRequest_errors [OF send(2), where 'a = TranscriptionResponse] by simp
next
  case (response absPath responseData c1)
  then show ?thesis
    using sendRequest_metrics [OF response(2)] handleResponse_sum [OF response(3)] by simp
qed

lemma wrapped_error_class:
  "\<not> is_response_error (Inl (if is_panic e then e else ErrSend e) :: error + 'a) \<and>
   \<not> is_path_error (Inl (if is_panic e then e else ErrSend e) :: error + 'a)"
  by (cases e) simp_all

lemma Transcribe_metrics:
  assumes "Transcribe en c w audioPath model language task = (r, c', w')"
  shows "RequestsTotal (metrics c') = RequestsTotal (metrics c) + (if is_path_error r then 0 else 1) \<and>
         ErrorsTotal (metrics c') = ErrorsTotal (metrics c) + (if is_response_error r then 1 else 0)"
  using assms
proof (cases rule: Transcribe_unfold)
  case abs
  then show ?thesis by simp
next
  case (missing absPath)
  then show ?thesis by simp
next
  case (send absPath e)
  then show ?thesis
    using sendRequestWithContext_client [OF send(3)] wrapped_error_class [of e, where 'a = TranscriptionResponse] by simp
next
  case (response absPath responseData c1)
  then show ?thesis
    using sendRequestWithContext_client [OF response(3)] handleResponse_sum [OF response(4)] by simp
qed

lemma ListModels_metrics:
  assumes "ListModels en c w = (r, c', w')"
  shows "RequestsTotal (metrics c') = RequestsTotal (metrics c) + 1 \<and>
         ErrorsTotal (metrics c') = ErrorsTotal (metrics c)"
  using assms
proof (cases rule: ListModels_unfold)
  case (send e)
  then show ?thesis using sendRequest_metrics [OF send(1)] by simp
next
  case (response responseData)
  then show ?thesis using sendRequest_metrics [OF response(1)] by simp
qed

lemma panic_not_io: "is_panic e \<Longrightarrow> \<not> is_io_error (Inl e)"
  by (cases e) simp_all

lemma sendRequest_part_001_closed:
  assumes "sendRequest_part_001 en c w req = (r, c', w')" and "is_io_error r"
  shows "conn c' = None \<and>
     (\<exists>k es. trace w' = trace w @ es @ [EvClose k] \<and> only_on k es \<and> socks w' k = None \<and>
        (conn c = Some k \<or> conn c = None \<and> dials w \<le> k))"
  using assms(1)
proof (cases rule: sendRequest_part_001_cases)
  case connect
  with assms(2) show ?thesis by simp
next
  case (marshal k)
  with assms(2) show ?thesis by simp
next
  case (write_fail k c1 w1 js e w2)
  obtain evs0 where evs0: "trace w1 = trace w @ evs0" "list_all (\<lambda>e. ev_sock e = None) evs0"
    using ensureConnection_trace [OF write_fail(1)] by metis
  from write_frame_sum [OF write_fail(4)] obtain evs1 where
    evs1: "trace w2 = trace w1 @ evs1" "only_on k evs1"
    by blast
  have kc: "conn c = Some k \<or> conn c = None \<and> dials w \<le> k"
    using ensureConnection_sum [OF write_fail(1)] write_fail(2) by (cases "conn c") auto
  have "trace w' = trace w @ (evs0 @ evs1) @ [EvClose k]" "only_on k (evs0 @ evs1)"
    using write_fail(7) evs0 evs1 by (simp_all add: only_on_sockless)
  with kc write_fail(6,7) show ?thesis
    by (intro conjI exI [of _ k] exI [of _ "evs0 @ evs1"]) simp_all
next
  case (read_fail k c1 w1 js w2 e w3)
  obtain evs0 where evs0: "trace w1 = trace w @ evs0" "list_all (\<lambda>e. ev_sock e = None) evs0"
    using ensureConnection_trace [OF read_fail(1)] by metis
  from write_frame_sum [OF read_fail(4)] obtain evs1 where
    evs1: "trace w2 = trace w1 @ evs1" "only_on k evs1"
    by blast
  from read_frame_sum [OF read_fail(5)] obtain evs2 where
    evs2: "trace w3 = trace w2 @ evs2" "only_on k evs2"
    by blast
  have kc: "conn c = Some k \<or> conn c = None \<and> dials w \<le> k"
    using ensureConnection_sum [OF read_fail(1)] read_fail(2) by (cases "conn c") auto
  have "trace w' = trace w @ (evs0 @ evs1 @ evs2) @ [EvClose k]" "only_on k (evs0 @ evs1 @ evs2)"
    using read_fail(9) evs0 evs1 evs2 by (simp_all add: only_on_sockless)
  with kc read_fail(8,9) show ?thesis
    by (intro conjI exI [of _ k] exI [of _ "evs0 @ evs1 @ evs2"]) simp_all
next
  case (panic k w1 js w2 e)
  with assms(2) panic_not_io [of e, where 'a = "byte list"] show ?thesis by simp
next
  case (ok k w1 js w2 buf)
  with assms(2) show ?thesis by simp
qed

lemma sendRequest_part_001_redial:
  assumes "conn c = None" and "sendRequest_part_001 en c w req = (r, c', w')"
  shows "\<exists>es. delta w w' = EvDial (JoinHostPort (Host c) (Port c)) (dials w)
                              (dial_ok en (JoinHostPort (Host c) (Port c)) (dials w)) # es"
  using sendRequest_part_001_trace [OF assms(2)] assms(1)
  by (auto simp add: delta_def)

lemma sendRequest_closed:
  assumes "sendRequest en c w req = (r, c', w')" and "is_io_error r"
  shows "Host c' = Host c \<and> Port c' = Port c \<and> conn c' = None \<and>
     (\<exists>k es. delta w w' = es @ [EvClose k] \<and> only_on k es \<and> socks w' k = None \<and>
        (conn c = Some k \<or> conn c = None \<and> dials w \<le> k))"
proof -
  from assms(1) obtain c1 where
    1: "sendRequest_part_001 en (add_RequestsTotal c 1) w req = (r, c1, w')"
    and c': "c' = add_ProcessingTimeMs c1 (of_nat (clock w' - clock w))"
    by (rule sendRequest_unfold)
  from sendRequest_part_001_closed [OF 1 assms(2)] sendRequest_part_001_client [OF 1] c'
  show ?thesis
    by (auto simp add: delta_def)
qed

lemma sendRequest_redial:
  assumes "conn c = None"
  shows "\<exists>es. delta w (snd (snd (sendRequest en c w req))) =
           EvDial (JoinHostPort (Host c) (Port c)) (dials w)
             (dial_ok en (JoinHostPort (Host c) (Port c)) (dials w)) # es"
proof -
  obtain r c' w' where 1: "sendRequest en c w req = (r, c', w')"
    by (cases "sendRequest en c w req")
  from 1 obtain c1 where
    2: "sendRequest_part_001 en (add_RequestsTotal c 1) w req = (r, c1, w')"
    by (rule sendRequest_unfold)
  from sendRequest_part_001_redial [OF _ 2] assms 1 show ?thesis
    by simp
qed

lemma normalize_language_cases:
  "normalize_language language = (if language = Some [] then None else language)"
  by (cases language) (simp_all add: normalize_language_def)

lemma language_field_normalized:
  "(''language'', []) \<notin> set (json_fields (FileReq \<lparr>f_Command = ''transcribe'', f_AudioPath = p,
        f_Model = m, f_Language = normalize_language language, f_Task = t\<rparr>)) \<and>
   (''language'', []) \<notin> set (json_fields (DataReq \<lparr>d_Command = ''transcribe'', d_AudioData = d,
        d_Model = m, d_Language = normalize_language language, d_Task = t\<rparr>))"
  by (cases language) (auto simp add: normalize_language_def omitempty_def omitnil_def)

lemma language_field_absent:
  assumes "language = None \<or> language = Some []"
  shows "map_of (json_fields (FileReq \<lparr>f_Command = ''transcribe'', f_AudioPath = p,
        f_Model = m, f_Language = normalize_language language, f_Task = t\<rparr>)) ''language'' = None \<and>
   map_of (json_fields (DataReq \<lparr>d_Command = ''transcribe'', d_AudioData = d,
        d_Model = m, d_Language = normalize_language language, d_Task = t\<rparr>)) ''language'' = None"
  using assms by (auto simp add: normalize_language_def omitempty_def omitnil_def)

lemma Transcribe_written:
  assumes "abs_path en audioPath = Some absPath"
    and "Transcribe en c w audioPath model language task = (r, c', w')"
  shows "case json_Marshal en (FileReq \<lparr>f_Command = ''transcribe'', f_AudioPath = absPath,
            f_Model = model, f_Language = normalize_language language, f_Task = task\<rparr>) of
           None \<Rightarrow> written (delta w w') = []
         | Some js \<Rightarrow> prefix (written (delta w w')) [PutUint64 (of_nat (length js)), js]"
  using assms(2)
proof (cases rule: Transcribe_unfold)
  case abs
  with assms(1) show ?thesis by simp
next
  case (missing q)
  then show ?thesis by (simp split: option.splits)
next
  case (send q e)
  with assms(1) have q: "q = absPath" by simp
  from sendRequestWithContext_trace [OF send(3)] q show ?thesis
    by (auto simp add: delta_def split: option.splits)
next
  case (response q responseData c1)
  with assms(1) have q: "q = absPath" by simp
  from sendRequestWithContext_trace [OF response(3)] q show ?thesis
    by (auto simp add: delta_def split: option.splits)
qed

lemma sendRequest_written:
  assumes "sendRequest en c w req = (r, c', w')"
  shows "case json_Marshal en req of
           None \<Rightarrow> written (delta w w') = []
         | Some js \<Rightarrow> prefix (written (delta w w')) [PutUint64 (of_nat (length js)), js]"
  using assms
proof (rule sendRequest_unfold)
  fix c1
  assume "sendRequest_part_001 en (add_RequestsTotal c 1) w req = (r, c1, w')"
  from sendRequest_part_001_trace [OF this] show ?thesis
    by (auto simp add: delta_def split: option.splits)
qed

lemma Transcribe_part_000_written:
  assumes "abs_path en audioPath = Some absPath"
    and "Transcribe_part_000 en c w audioPath model language task = (r, c', w')"
  shows "case json_Marshal en (FileReq \<lparr>f_Command = ''transcribe'', f_AudioPath = absPath,
            f_Model = model, f_Language = normalize_language language, f_Task = task\<rparr>) of
           None \<Rightarrow> written (delta w w') = []
         | Some js \<Rightarrow> prefix (written (delta w w')) [PutUint64 (of_nat (length js)), js]"
  using assms(2)
proof (cases rule: Transcribe_part_000_unfold)
  case abs
  with assms(1) show ?thesis by simp
next
  case (send q e)
  with assms(1) have q: "q = absPath" by simp
  from sendRequest_written [OF send(2)] q show ?thesis by simp
next
  case (response q responseData c1)
  with assms(1) have q: "q = absPath" by simp
  from sendRequest_written [OF response(2)] q show ?thesis by simp
qed

lemma write_frame_succeeds:
  assumes "socks w k = Some s" and "write_ok en k (wcnt s)" and "write_ok en k (wcnt s + 1)"
  shows "fst (write_frame en w k js) = None"
  using assms by (simp add: write_frame_def conn_Write_def Let_def)

lemma write_frame_trace_ok:
  assumes "write_frame en w k js = (None, w')"
  shows "trace w' = trace w @ [EvWrite k (PutUint64 (of_nat (length js))) True, EvWrite k js True]"
  using write_frame_ok [of en w k js] assms write_frame_sum [OF assms]
  by (auto simp add: delta_def)

lemma ensureConnection_add:
  "ensureConnection en (add_RequestsTotal c d) w =
     (case ensureConnection en c w of (r, c', w') \<Rightarrow> (r, add_RequestsTotal c' d, w'))"
  by (simp add: ensureConnection_def dial_loop_0 dial_loop_1 dial_loop_2 net_Dial_def
      add_RequestsTotal_def Let_def)

text \<open>
  A send writes the header and the payload of its request when the request is marshalled,
  the connection is there and the two writes succeed, whatever the reads do afterwards.
\<close>

lemma sendRequest_part_001_sends:
  assumes m: "json_Marshal en req = Some js"
    and e: "ensureConnection en c w = (None, c1, w1)"
    and k: "conn c1 = Some k" "socks w1 k = Some s"
    and wr: "write_ok en k (wcnt s)" "write_ok en k (wcnt s + 1)"
  shows "written (delta w (snd (snd (sendRequest_part_001 en c w req))))
           = [PutUint64 (of_nat (length js)), js]"
proof -
  obtain r c' w' where 1: "sendRequest_part_001 en c w req = (r, c', w')"
    by (cases "sendRequest_part_001 en c w req")
  obtain evs0 where evs0: "trace w1 = trace w @ evs0" "written evs0 = []"
    using ensureConnection_trace [OF e] by metis
  have wf: "fst (write_frame en w1 k js) = None"
    using write_frame_succeeds [OF k(2) wr] .
  from 1 have "written (delta w w') = [PutUint64 (of_nat (length js)), js]"
  proof (cases rule: sendRequest_part_001_cases)
    case connect
    with e show ?thesis by simp
  next
    case (marshal k')
    with m show ?thesis by simp
  next
    case (write_fail k' c0 w0 js' e' w2)
    with e k m wf show ?thesis by simp
  next
    case (read_fail k' c0 w0 js' w2 e' w3)
    with e k m have eq: "k' = k" "w0 = w1" "js' = js" by simp_all
    from read_frame_sum [OF read_fail(5)] obtain evs2 where
      evs2: "trace w3 = trace w2 @ evs2" "written evs2 = []"
      by blast
    from write_frame_trace_ok [of en w0 k' js' w2] read_fail(4) eq evs0 evs2 read_fail(9)
    show ?thesis
      by (simp add: delta_def)
  next
    case (panic k' w0 js' w2 e')
    with e k m have eq: "k' = k" "w0 = w1" "js' = js" by simp_all
    from read_frame_sum [OF panic(5)] obtain evs2 where
      evs2: "trace w' = trace w2 @ evs2" "written evs2 = []"
      by blast
    from write_frame_trace_ok [of en w0 k' js' w2] panic(4) eq evs0 evs2
    show ?thesis
      by (simp add: delta_def)
  next
    case (ok k' w0 js' w2 buf)
    with e k m have eq: "k' = k" "w0 = w1" "js' = js" by simp_all
    from read_frame_sum [OF ok(5)] obtain evs2 where
      evs2: "trace w' = trace w2 @ evs2" "written evs2 = []"
      by blast
    from write_frame_trace_ok [of en w0 k' js' w2] ok(4) eq evs0 evs2
    show ?thesis
      by (simp add: delta_def)
  qed
  with 1 show ?thesis by simp
qed

lemma sendRequest_sends:
  assumes m: "json_Marshal en req = Some js"
    and e: "ensureConnection en c w = (None, c1, w1)"
    and k: "conn c1 = Some k" "socks w1 k = Some s"
    and wr: "write_ok en k (wcnt s)" "write_ok en k (wcnt s + 1)"
  shows "written (delta w (snd (snd (sendRequest en c w req))))
           = [PutUint64 (of_nat (length js)), js]"
proof -
  obtain r c' w' where 1: "sendRequest en c w req = (r, c', w')"
    by (cases "sendRequest en c w req")
  have e': "ensureConnection en (add_RequestsTotal c 1) w = (None, add_RequestsTotal c1 1, w1)"
    using e by (simp add: ensureConnection_add)
  have k': "conn (add_RequestsTotal c1 1) = Some k"
    using k(1) by simp
  from 1 obtain c2 where 2: "sendRequest_part_001 en (add_RequestsTotal c 1) w req = (r, c2, w')"
    by (rule sendRequest_unfold)
  from sendRequest_part_001_sends [OF m e' k' k(2) wr] 1 2 show ?thesis
    by simp
qed

lemma sendRequestWithContext_sends:
  assumes m: "json_Marshal en req = Some js"
    and d: "dial_ok en (JoinHostPort (Host c) (Port c)) (dials w)"
    and wr: "write_ok en (dials w) 0" "write_ok en (dials w) 1"
  shows "written (delta w (snd (snd (sendRequestWithContext en c w req))))
           = [PutUint64 (of_nat (length js)), js]"
proof -
  obtain r c' w' where 1: "sendRequestWithContext en c w req = (r, c', w')"
    by (cases "sendRequestWithContext en c w req")
  from 1 have "written (delta w w') = [PutUint64 (of_nat (length js)), js]"
  proof (cases rule: sendRequestWithContext_cases)
    case marshal
    with m show ?thesis by simp
  next
    case (dial js')
    with d net_Dial_sum [OF dial(2)] show ?thesis by simp
  next
    case (write_fail js' k w1 e w2)
    from net_Dial_sum [OF write_fail(2)] d have "k = dials w"
      "socks w1 k = Some \<lparr>rpos = 0, wcnt = 0\<rparr>"
      by simp_all
    with write_frame_succeeds [of w1 k "\<lparr>rpos = 0, wcnt = 0\<rparr>" en js'] wr write_fail(3)
    show ?thesis by simp
  next
    case (read js' k w1 w2 w3)
    with m have eq: "js' = js" by simp
    from net_Dial_sum [OF read(2)] d have tr: "trace w1 = trace w @ [EvDial (JoinHostPort (Host c) (Port c)) (dials w) True]"
      by simp
    from read_frame_sum [OF read(4)] obtain evs2 where
      evs2: "trace w3 = trace w2 @ evs2" "written evs2 = []"
      by blast
    from write_frame_trace_ok [OF read(3)] eq tr evs2 read(5)
    show ?thesis
      by (simp add: delta_def conn_Close_def)
  qed
  with 1 show ?thesis by simp
qed


lemma Transcribe_sends:
  assumes a: "abs_path en audioPath = Some absPath"
    and ns: "\<not> stat_not_exist en absPath"
    and m: "json_Marshal en (FileReq \<lparr>f_Command = ''transcribe'', f_AudioPath = absPath,
          f_Model = model, f_Language = normalize_language language, f_Task = task\<rparr>) = Some js"
    and d: "dial_ok en (JoinHostPort (Host c) (Port c)) (dials w)"
    and wr: "write_ok en (dials w) 0" "write_ok en (dials w) 1"
  shows "written (delta w (snd (snd (Transcribe en c w audioPath model language task))))
           = [PutUint64 (of_nat (length js)), js]"
proof -
  obtain r c' w' where 1: "Transcribe en c w audioPath model language task = (r, c', w')"
    by (cases "Transcribe en c w audioPath model language task")
  from 1 have "written (delta w w') = [PutUint64 (of_nat (length js)), js]"
  proof (cases rule: Transcribe_unfold)
    case abs
    with a show ?thesis by simp
  next
    case (missing q)
    with a ns show ?thesis by simp
  next
    case (send q e)
    with a have q: "q = absPath" by simp
    from sendRequestWithContext_sends [OF m d wr] send(3) q show ?thesis by simp
  next
    case (response q responseData c1)
    with a have q: "q = absPath" by simp
    from sendRequestWithContext_sends [OF m d wr] response(3) q show ?thesis by simp
  qed
  with 1 show ?thesis by simp
qed

lemma Transcribe_part_000_sends:
  assumes a: "abs_path en audioPath = Some absPath"
    and m: "json_Marshal en (FileReq \<lparr>f_Command = ''transcribe'', f_AudioPath = absPath,
          f_Model = model, f_Language = normalize_language language, f_Task = task\<rparr>) = Some js"
    and e: "ensureConnection en c w = (None, c1, w1)"
    and k: "conn c1 = Some k" "socks w1 k = Some s"
    and wr: "write_ok en k (wcnt s)" "write_ok en k (wcnt s + 1)"
  shows "written (delta w (snd (snd (Transcribe_part_000 en c w audioPath model language task))))
           = [PutUint64 (of_nat (length js)), js]"
proof -
  obtain r c' w' where 1: "Transcribe_part_000 en c w audioPath model language task = (r, c', w')"
    by (cases "Transcribe_part_000 en c w audioPath model language task")
  from 1 have "written (delta w w') = [PutUint64 (of_nat (length js)), js]"
  proof (cases rule: Transcribe_part_000_unfold)
    case abs
    with a show ?thesis by simp
  next
    case (send q e')
    with a have q: "q = absPath" by simp
    from sendRequest_sends [OF m e k wr] send(2) q show ?thesis by simp
  next
    case (response q responseData c2)
    with a have q: "q = absPath" by simp
    from sendRequest_sends [OF m e k wr] response(2) q show ?thesis by simp
  qed
  with 1 show ?thesis by simp
qed

lemma sendRequest_conn:
  assumes "one_conn c w" and "sendRequest en c w req = (r, c', w')"
  shows "one_conn c' w' \<and>
     (\<exists>k. only_on k (delta w w') \<and> (conn c = Some k \<or> conn c = None \<and> dials w \<le> k) \<and>
          (conn c' = None \<or> conn c' = Some k))"
  using assms(2)
proof (rule sendRequest_unfold)
  fix c1
  assume 1: "sendRequest_part_001 en (add_RequestsTotal c 1) w req = (r, c1, w')"
    and c': "c' = add_ProcessingTimeMs c1 (of_nat (clock w' - clock w))"
  have "one_conn c1 w'"
    using sendRequest_part_001_one_conn [OF 1] assms(1) by simp
  moreover have "\<exists>k. only_on k (delta w w') \<and> (conn c = Some k \<or> conn c = None \<and> dials w \<le> k) \<and>
          (conn c1 = None \<or> conn c1 = Some k)"
    using sendRequest_part_001_trace [OF 1] by (auto simp add: delta_def)
  ultimately show ?thesis
    using c' by simp
qed

lemma one_conn_cong: "conn c' = conn c \<Longrightarrow> one_conn c' w = one_conn c w"
  by (simp add: one_conn_def)

lemma TranscribeData_conn:
  assumes "one_conn c w" and "TranscribeData en c w audioData model language task = (r, c', w')"
  shows "one_conn c' w' \<and>
     (\<exists>k. only_on k (delta w w') \<and> (conn c = Some k \<or> conn c = None \<and> dials w \<le> k) \<and>
          (conn c' = None \<or> conn c' = Some k))"
  using assms(2)
proof (cases rule: TranscribeData_unfold)
  case (send e)
  then show ?thesis using sendRequest_conn [OF assms(1) send(1)] by simp
next
  case (response responseData c1)
  have cc: "conn c' = conn c1"
    using handleResponse_sum [OF response(2)] by simp
  show ?thesis
    using sendRequest_conn [OF assms(1) response(1)] cc one_conn_cong [OF cc, of w'] by simp
qed

lemma ListModels_conn:
  assumes "one_conn c w" and "ListModels en c w = (r, c', w')"
  shows "one_conn c' w' \<and>
     (\<exists>k. only_on k (delta w w') \<and> (conn c = Some k \<or> conn c = None \<and> dials w \<le> k) \<and>
          (conn c' = None \<or> conn c' = Some k))"
  using assms(2)
proof (cases rule: ListModels_unfold)
  case (send e)
  then show ?thesis using sendRequest_conn [OF assms(1) send(1)] by simp
next
  case (response responseData)
  then show ?thesis using sendRequest_conn [OF assms(1) response(1)] by simp
qed

lemma Transcribe_part_000_conn:
  assumes "one_conn c w" and "Transcribe_part_000 en c w audioPath model language task = (r, c', w')"
  shows "one_conn c' w' \<and>
     (\<exists>k. only_on k (delta w w') \<and> (conn c = Some k \<or> conn c = None \<and> dials w \<le> k) \<and>
          (conn c' = None \<or> conn c' = Some k))"
  using assms(2)
proof (cases rule: Transcribe_part_000_unfold)
  case abs
  then show ?thesis
    using assms(1) by (cases "conn c") auto
next
  case (send absPath e)
  then show ?thesis using sendRequest_conn [OF assms(1) send(2)] by simp
next
  case (response absPath responseData c1)
  have cc: "conn c' = conn c1"
    using handleResponse_sum [OF response(3)] by simp
  show ?thesis
    using sendRequest_conn [OF assms(1) response(2)] cc one_conn_cong [OF cc, of w'] by simp
qed

lemma one_conn_fresh: "one_conn c w \<Longrightarrow> dials w \<notin> dom (socks w) \<and> conn c \<noteq> Some (dials w)"
  by (auto simp add: one_conn_def split: option.splits)

lemma sendRequestWithContext_conn:
  assumes "one_conn c w" and "sendRequestWithContext en c w req = (r, c', w')"
  shows "conn c' = conn c \<and> one_conn c' w' \<and> only_on (dials w) (delta w w')"
proof -
  have c': "conn c' = conn c"
    using sendRequestWithContext_client [OF assms(2)] by simp
  have "dom (socks w') = dom (socks w) \<and> dials w \<le> dials w'"
    using sendRequestWithContext_socks [OF assms(2)] one_conn_fresh [OF assms(1)] by simp
  then have "one_conn c' w'"
    using assms(1) c' by (auto simp add: one_conn_def split: option.splits)
  moreover have "only_on (dials w) (delta w w')"
    using sendRequestWithContext_trace [OF assms(2)] by (auto simp add: delta_def)
  ultimately show ?thesis
    using c' by simp
qed

lemma Transcribe_conn:
  assumes "one_conn c w" and "Transcribe en c w audioPath model language task = (r, c', w')"
  shows "conn c' = conn c \<and> one_conn c' w' \<and> only_on (dials w) (delta w w')"
  using assms(2)
proof (cases rule: Transcribe_unfold)
  case abs
  then show ?thesis using assms(1) by simp
next
  case (missing absPath)
  then show ?thesis using assms(1) by simp
next
  case (send absPath e)
  then show ?thesis using sendRequestWithContext_conn [OF assms(1) send(3)] by simp
next
  case (response absPath responseData c1)
  have cc: "conn c' = conn c1"
    using handleResponse_sum [OF response(4)] by simp
  show ?thesis
    using sendRequestWithContext_conn [OF assms(1) response(3)] cc one_conn_cong [OF cc, of w']
    by simp
qed

lemma Close_conn:
  assumes "one_conn c w"
  shows "conn (fst (Close en c w)) = None \<and> one_conn (fst (Close en c w)) (snd (Close en c w))"
  using assms
  by (cases "conn c") (auto simp add: Close_def closeConnection_def conn_Close_def one_conn_def)

section \<open>Properties of the threads\<close>

lemma continues_WHeader [simp]: "continues prev (i, WHeader)"
  by (cases prev) auto

lemma serial_from_snoc:
  "serial_from prev (es @ [e]) = (serial_from prev es \<and> continues (last_of prev es) e)"
  by (induction es arbitrary: prev) (auto simp add: last_of_def)

lemma serial_snoc: "serial (es @ [e]) = (serial es \<and> continues (last_of None es) e)"
  by (simp add: serial_def serial_from_snoc)

lemma exclusive_start: "exclusive start"
  by (simp add: exclusive_def start_def serial_def)

lemma exclusive_step:
  assumes "exclusive s" and "step_part_001 i ok s = Some s'"
  shows "exclusive s'"
proof -
  from assms(1) have ser: "serial (wire s)"
    and nocl: "\<And>j. pcs s j \<noteq> Closing"
    and free: "lock_free s \<Longrightarrow> \<not> in_call (pcs s j)"
    and held: "\<not> lock_free s \<Longrightarrow> \<exists>h. in_call (pcs s h) \<and> (\<forall>j. j \<noteq> h \<longrightarrow> \<not> in_call (pcs s j))"
    and tail: "\<And>j x. expects (pcs s j) = Some x \<Longrightarrow> last_of None (wire s) = Some (j, x)"
    for j
    by (auto simp add: exclusive_def)
  have others: "\<not> in_call (pcs s j)" if "in_call (pcs s i)" "j \<noteq> i" for j
  proof -
    from that(1) free have "\<not> lock_free s" by auto
    from held [OF this] obtain h where h: "in_call (pcs s h)" "\<forall>j. j \<noteq> h \<longrightarrow> \<not> in_call (pcs s j)"
      by blast
    with that(1) have "h = i" by auto
    with h that(2) show ?thesis by simp
  qed
  have locked: "\<not> lock_free s" if "in_call (pcs s i)"
    using that free by auto
  show ?thesis
  proof (cases "pcs s i")
    case Idle
    with assms(2) have lf: "lock_free s" and s': "s' = goto i Ensure (s\<lparr>lock_free := False\<rparr>)"
      by (auto simp add: step_part_001_def split: if_splits)
    show ?thesis
      unfolding exclusive_def s' using ser nocl free [OF lf] tail
      by (auto simp add: goto_def intro!: exI [of _ i])
  next
    case Ensure
    then have ic: "in_call (pcs s i)" by simp
    from Ensure assms(2) have s': "s' = goto i (if ok then WriteHdr else Release) s"
      by (simp add: step_part_001_def)
    show ?thesis
      unfolding exclusive_def s' using ser nocl locked [OF ic] others [OF ic] tail
      by (auto simp add: goto_def intro!: exI [of _ i])
  next
    case WriteHdr
    then have ic: "in_call (pcs s i)" by simp
    from WriteHdr assms(2) have s': "s' = (if ok then goto i WriteBody (io i WHeader s) else goto i Release s)"
      by (simp add: step_part_001_def)
    have oth: "expects (pcs s j) = None" if "j \<noteq> i" for j
      using others [OF ic that] by (cases "pcs s j") simp_all
    show ?thesis
      unfolding exclusive_def s' using ser nocl locked [OF ic] others [OF ic] tail oth
      by (auto simp add: goto_def io_def serial_snoc last_of_def intro!: exI [of _ i])
  next
    case WriteBody
    then have ic: "in_call (pcs s i)" by simp
    from WriteBody assms(2) have s': "s' = (if ok then goto i ReadHdr (io i WBody s) else goto i Release s)"
      by (simp add: step_part_001_def)
    have oth: "expects (pcs s j) = None" if "j \<noteq> i" for j
      using others [OF ic that] by (cases "pcs s j") simp_all
    have lst: "last_of None (wire s) = Some (i, WHeader)"
      using tail [of i WHeader] WriteBody by simp
    show ?thesis
      unfolding exclusive_def s' using ser nocl locked [OF ic] others [OF ic] oth lst
      by (auto simp add: goto_def io_def serial_snoc last_of_def follows_def intro!: exI [of _ i])
  next
    case ReadHdr
    then have ic: "in_call (pcs s i)" by simp
    from ReadHdr assms(2) have s': "s' = (if ok then goto i ReadBody (io i RHeader s) else goto i Release s)"
      by (simp add: step_part_001_def)
    have oth: "expects (pcs s j) = None" if "j \<noteq> i" for j
      using others [OF ic that] by (cases "pcs s j") simp_all
    have lst: "last_of None (wire s) = Some (i, WBody)"
      using tail [of i WBody] ReadHdr by simp
    show ?thesis
      unfolding exclusive_def s' using ser nocl locked [OF ic] others [OF ic] oth lst
      by (auto simp add: goto_def io_def serial_snoc last_of_def follows_def intro!: exI [of _ i])
  next
    case ReadBody
    then have ic: "in_call (pcs s i)" by simp
    from ReadBody assms(2) have s': "s' = (if ok then goto i Release (io i RBody s) else goto i Release s)"
      by (simp add: step_part_001_def)
    have oth: "expects (pcs s j) = None" if "j \<noteq> i" for j
      using others [OF ic that] by (cases "pcs s j") simp_all
    have lst: "last_of None (wire s) = Some (i, RHeader)"
      using tail [of i RHeader] ReadBody by simp
    show ?thesis
      unfolding exclusive_def s' using ser nocl locked [OF ic] others [OF ic] oth lst
      by (auto simp add: goto_def io_def serial_snoc last_of_def follows_def intro!: exI [of _ i])
  next
    case Closing
    with nocl show ?thesis by simp
  next
    case Release
    then have ic: "in_call (pcs s i)" by simp
    from Release assms(2) have s': "s' = goto i Done (s\<lparr>lock_free := True\<rparr>)"
      by (simp add: step_part_001_def)
    show ?thesis
      unfolding exclusive_def s' using ser nocl others [OF ic] tail
      by (auto simp add: goto_def)
  next
    case Done
    with assms(2) show ?thesis
      by (simp add: step_part_001_def)
  qed
qed

lemma exclusive_run:
  assumes "exclusive s" and "run step_part_001 sched s = Some s'"
  shows "exclusive s'"
  using assms
proof (induction sched arbitrary: s)
  case Nil
  then show ?case by simp
next
  case (Cons a sched)
  obtain i ok where a: "a = (i, ok)" by (cases a)
  with Cons.prems(2) obtain s1 where 1: "step_part_001 i ok s = Some s1"
    and 2: "run step_part_001 sched s1 = Some s'"
    by (auto split: option.splits)
  from Cons.IH [OF exclusive_step [OF Cons.prems(1) 1] 2] show ?case .
qed

lemma part_001_serial:
  assumes "run step_part_001 sched start = Some s"
  shows "serial (wire s) \<and> (\<forall>i j. in_call (pcs s i) \<and> in_call (pcs s j) \<longrightarrow> i = j)"
proof -
  have "exclusive s"
    using exclusive_run [OF exclusive_start assms] .
  then show ?thesis
    by (auto simp add: exclusive_def) metis
qed

section \<open>Running the operations\<close>

lemma length_bytes_of [simp]: "length (bytes_of s) = length s"
  by (simp add: bytes_of_def)

lemmas run_defs =
  TranscribeData_def Transcribe_def Transcribe_part_000_def Transcribe_part_001_def
  TranscribeData_part_001_def ListModels_def
  sendRequest_def sendRequest_part_001_def sendRequestWithContext_def handleResponse_def
  decode_part_001_def
  ensureConnection_def dial_loop_0 dial_loop_1 dial_loop_2 net_Dial_def time_Sleep_def
  closeConnection_def conn_Close_def write_frame_def read_frame_def conn_Write_def io_ReadFull_def
  emit_def json_Marshal_def omitempty_def omitnil_def normalize_language_def
  add_RequestsTotal_def add_ErrorsTotal_def add_ProcessingTimeMs_def
  JoinHostPort_def headerSize_def retryTimeout_def Let_def delta_def
  NewWhisperClient_def client0_def world0_def world1_def test_env_def test_render_def test_parse_def
  test_parse_models_def ok_reply_def

lemma after_models_eval:
  "after_models =
     (\<lparr>Host = ''localhost'', Port = ''5000'', conn = Some 0,
       metrics = \<lparr>RequestsTotal = 1, ErrorsTotal = 0, ProcessingTimeMs = 6\<rparr>\<rparr>,
      \<lparr>dials = 1, clock = 6, socks = [0 \<mapsto> \<lparr>rpos = 9, wcnt = Suc (Suc 0)\<rparr>],
       trace = [EvDial ''localhost:5000'' 0 True,
                EvWrite 0 [0, 0, 0, 0, 0, 0, 0, 20] True,
                EvWrite 0 (bytes_of ''command=list_models;'') True,
                EvRead 0 8 True, EvMake 1 True, EvRead 0 1 True]\<rparr>)"
  by (simp add: after_models_def scenario_env_def run_defs Uint64_def PutUint64_def bytes_of_def)

section \<open>The claims\<close>

text \<open>
  C1. The claim: with several callers on one client, the whole sequence of ensuring the
  connection, writing and reading of one call excludes every other call, so that the bytes
  of two calls never interleave on the wire. Part 001 does that (lemma \<open>part_001_serial\<close>
  above). In \<^verbatim>\<open>whisper_client.go\<close> and in part 000 the lock is held inside
  \<^verbatim>\<open>ensureConnection\<close> and \<^verbatim>\<open>closeConnection\<close> only: under the schedule below two
  goroutines are both past the lock and about to write the body of their request, and the
  goroutine 1 writes its header between the header and the body of the goroutine 0.
\<close>

theorem mutex_variant_interleaves:
  "wire_of
     (run step_mutex [(0, True), (0, True), (1, True), (1, True), (0, True), (1, True), (0, True)] start)
     = Some [(0, WHeader), (1, WHeader), (0, WBody)] \<and>
   \<not> serial [(0, WHeader), (1, WHeader), (0, WBody)] \<and>
   pc_of 0 (run step_mutex [(0, True), (0, True), (1, True), (1, True), (0, True), (1, True)] start)
     = Some WriteBody \<and>
   pc_of 1 (run step_mutex [(0, True), (0, True), (1, True), (1, True), (0, True), (1, True)] start)
     = Some WriteBody"
  by (simp add: step_mutex_def start_def goto_def io_def serial_def follows_def wire_of_def pc_of_def)

text \<open>
  C2, as the code has it. Every call of \<open>TranscribeData\<close> and of \<open>ListModels\<close>, and every
  call of \<open>Transcribe\<close> that gets past the checks of its path, adds exactly one to
  \<open>RequestsTotal\<close>, whatever the outcome; a call of \<open>Transcribe\<close> that fails on its
  path adds nothing. A call of \<open>Transcribe\<close> or of \<open>TranscribeData\<close> adds exactly one to
  \<open>ErrorsTotal\<close> when the response does not decode or carries an error, and nothing
  otherwise: not when the connection cannot be established, nor when a write or a read
  fails.
\<close>

theorem metrics_per_call:
  "(case TranscribeData en c w audioData model language task of (r, c', w') \<Rightarrow>
      RequestsTotal (metrics c') = RequestsTotal (metrics c) + 1 \<and>
      ErrorsTotal (metrics c') = ErrorsTotal (metrics c) + (if is_response_error r then 1 else 0)) \<and>
   (case ListModels en c w of (r, c', w') \<Rightarrow>
      RequestsTotal (metrics c') = RequestsTotal (metrics c) + 1) \<and>
   (case Transcribe en c w audioPath model language task of (r, c', w') \<Rightarrow>
      RequestsTotal (metrics c') = RequestsTotal (metrics c) + (if is_path_error r then 0 else 1) \<and>
      ErrorsTotal (metrics c') = ErrorsTotal (metrics c) + (if is_response_error r then 1 else 0)) \<and>
   (case Transcribe_part_000 en c w audioPath model language task of (r, c', w') \<Rightarrow>
      RequestsTotal (metrics c') = RequestsTotal (metrics c) + (if is_path_error r then 0 else 1) \<and>
      ErrorsTotal (metrics c') = ErrorsTotal (metrics c) + (if is_response_error r then 1 else 0))"
  using TranscribeData_metrics [of en c w audioData model language task]
    ListModels_metrics [of en c w]
    Transcribe_metrics [of en c w audioPath model language task]
    Transcribe_part_000_metrics [of en c w audioPath model language task]
  by (simp split: prod.splits)

theorem metrics_per_call_witness:
  "fst (TranscribeData (test_env [0] [] [0, 0, 0, 0, 0, 0, 0, 1, 1]) client0 world0
          [1, 2] ''base'' None ''transcribe'')
     = Inl (ErrApp ''model not found'') \<and>
   RequestsTotal (metrics (fst (snd
       (TranscribeData (test_env [0] [] [0, 0, 0, 0, 0, 0, 0, 1, 1]) client0 world0
          [1, 2] ''base'' None ''transcribe'')))) = 1 \<and>
   ErrorsTotal (metrics (fst (snd
       (TranscribeData (test_env [0] [] [0, 0, 0, 0, 0, 0, 0, 1, 1]) client0 world0
          [1, 2] ''base'' None ''transcribe'')))) = 1"
  using metrics_per_call [where en = "test_env [0] [] [0, 0, 0, 0, 0, 0, 0, 1, 1]"
      and c = client0 and w = world0 and audioData = "[1, 2]" and model = "''base''"
      and language = None and task = "''transcribe''"]
  by (simp add: run_defs Uint64_def split: prod.splits)

text \<open>
  C2, as the claim states it, fails: the backend is unreachable, \<open>TranscribeData\<close> returns
  the error of the connection, and \<open>ErrorsTotal\<close> is what it was.
\<close>

theorem errors_total_counterexample:
  "fst (TranscribeData (test_env [] [] []) client0 world0 [] ''base'' None ''transcribe'')
     = Inl ErrConnect \<and>
   ErrorsTotal (metrics (fst (snd
     (TranscribeData (test_env [] [] []) client0 world0 [] ''base'' None ''transcribe''))))
     = ErrorsTotal (metrics client0) \<and>
   ErrorsTotal (metrics (fst (snd
     (TranscribeData (test_env [] [] []) client0 world0 [] ''base'' None ''transcribe''))))
     \<noteq> ErrorsTotal (metrics client0) + 1"
  by (simp add: run_defs)

text \<open>
  C3, as the code has it. Between two calls the stored connection is the only open socket.
  \<open>TranscribeData\<close> and \<open>ListModels\<close> do all their reads and writes on one socket: the
  stored connection, or the one that \<open>ensureConnection\<close> dials in that call and stores
  (so does \<open>Transcribe\<close> of part 000);
  after the call that socket is stored, or closed with nothing stored. \<open>Transcribe\<close> of
  \<^verbatim>\<open>whisper_client.go\<close> dials a socket of its own in every call, reads and writes on that
  socket only, closes it before it returns, and leaves the stored connection as it was.
  \<open>Close\<close> leaves no connection.
\<close>

theorem one_stored_connection:
  assumes "one_conn c w"
  shows "(case TranscribeData en c w audioData model language task of (r, c', w') \<Rightarrow>
            one_conn c' w' \<and>
            (\<exists>k. only_on k (delta w w') \<and> (conn c = Some k \<or> conn c = None \<and> dials w \<le> k) \<and>
                 (conn c' = None \<or> conn c' = Some k))) \<and>
         (case ListModels en c w of (r, c', w') \<Rightarrow>
            one_conn c' w' \<and>
            (\<exists>k. only_on k (delta w w') \<and> (conn c = Some k \<or> conn c = None \<and> dials w \<le> k) \<and>
                 (conn c' = None \<or> conn c' = Some k))) \<and>
         (case Transcribe_part_000 en c w audioPath model language task of (r, c', w') \<Rightarrow>
            one_conn c' w' \<and>
            (\<exists>k. only_on k (delta w w') \<and> (conn c = Some k \<or> conn c = None \<and> dials w \<le> k) \<and>
                 (conn c' = None \<or> conn c' = Some k))) \<and>
         (case Transcribe en c w audioPath model language task of (r, c', w') \<Rightarrow>
            conn c' = conn c \<and> one_conn c' w' \<and> only_on (dials w) (delta w w') \<and>
            conn c \<noteq> Some (dials w)) \<and>
         (case Close en c w of (c', w') \<Rightarrow> conn c' = None \<and> one_conn c' w')"
proof -
  obtain r1 c1 w1 where 1: "TranscribeData en c w audioData model language task = (r1, c1, w1)"
    by (cases "TranscribeData en c w audioData model language task")
  obtain r2 c2 w2 where 2: "ListModels en c w = (r2, c2, w2)"
    by (cases "ListModels en c w")
  obtain r3 c3 w3 where 3: "Transcribe en c w audioPath model language task = (r3, c3, w3)"
    by (cases "Transcribe en c w audioPath model language task")
  obtain c4 w4 where 4: "Close en c w = (c4, w4)"
    by (cases "Close en c w")
  obtain r5 c5 w5 where 5: "Transcribe_part_000 en c w audioPath model language task = (r5, c5, w5)"
    by (cases "Transcribe_part_000 en c w audioPath model language task")
  note g = Transcribe_part_000_conn [OF assms 5]
  note a = TranscribeData_conn [OF assms 1]
  note b = ListModels_conn [OF assms 2]
  note d = Transcribe_conn [OF assms 3]
  have e: "conn c4 = None \<and> one_conn c4 w4"
    using Close_conn [OF assms, of en] 4 by simp
  have f: "conn c \<noteq> Some (dials w)"
    using one_conn_fresh [OF assms] by simp
  show ?thesis
    unfolding 1 2 3 4 5 prod.case
    using a b d e f g by (intro conjI) simp_all
qed

theorem one_stored_connection_witness:
  "one_conn client0 world0 \<and>
   io_socks (delta world0 (snd (snd
      (TranscribeData scenario_env client0 world0 [1, 2] ''base'' None ''transcribe'')))) = [0, 0, 0, 0] \<and>
   conn (fst (snd
      (TranscribeData scenario_env client0 world0 [1, 2] ''base'' None ''transcribe''))) = Some 0 \<and>
   one_conn
     (fst (snd (TranscribeData scenario_env client0 world0 [1, 2] ''base'' None ''transcribe'')))
     (snd (snd (TranscribeData scenario_env client0 world0 [1, 2] ''base'' None ''transcribe'')))"
  using one_stored_connection [where c = client0 and w = world0
      and en = scenario_env and audioData = "[1, 2]" and model = "''base''" and language = None
      and task = "''transcribe''"]
  by (simp add: scenario_env_def run_defs one_conn_def io_socks_def List.map_filter_def
      Uint64_def PutUint64_def split: prod.splits)

text \<open>
  C3, as the claim states it, fails: after a first \<open>ListModels\<close> the socket 0 is stored and
  open, and the reads and writes of the \<open>Transcribe\<close> that follows are on the socket 1.
\<close>

theorem second_connection_counterexample:
  "conn (fst after_models) = Some 0 \<and>
   dom (socks (snd after_models)) = {0} \<and>
   io_socks (delta (snd after_models) (snd (snd
      (Transcribe scenario_env (fst after_models) (snd after_models)
         ''a.wav'' ''base'' None ''transcribe'')))) = [1, 1, 1, 1] \<and>
   conn (fst (snd (Transcribe scenario_env (fst after_models) (snd after_models)
         ''a.wav'' ''base'' None ''transcribe''))) = Some 0"
  unfolding after_models_eval
  by (simp add: scenario_env_def run_defs io_socks_def List.map_filter_def Uint64_def PutUint64_def)

text \<open>
  C4. A payload of at most \<open>2 ^ 32 - 1\<close> bytes survives the frame codec. The two writes of
  a call put on the wire eight bytes, the length of the payload as an unsigned big-endian
  number, and then the payload itself; the two reads of a call, on a stream that starts
  with these bytes, ask for eight bytes and then for as many as the header says, and return
  the payload (the runtime being able to allocate the buffer).
\<close>

theorem frame_round_trip:
  assumes "length payload < 2 ^ 32"
    and "fst (write_frame en w k payload) = None"
    and "socks v j = Some t"
    and "drop (rpos t) (peer_bytes en' j) = wire_out k (delta w (snd (write_frame en w k payload))) @ rest"
    and "alloc_ok en' (length payload)"
  shows "wire_out k (delta w (snd (write_frame en w k payload)))
           = PutUint64 (of_nat (length payload)) @ payload
       \<and> length (PutUint64 (of_nat (length payload))) = 8
       \<and> unat (Uint64 (PutUint64 (of_nat (length payload)))) = length payload
       \<and> fst (read_frame en' v j) = Inr payload
       \<and> delta v (snd (read_frame en' v j))
           = [EvRead j 8 True, EvMake (length payload) True, EvRead j (length payload) True]
       \<and> socks (snd (read_frame en' v j)) j = Some (t\<lparr>rpos := rpos t + 8 + length payload\<rparr>)"
proof -
  have len: "length payload < 2 ^ 64"
    using assms(1) by (rule less_trans) simp
  have out: "wire_out k (delta w (snd (write_frame en w k payload))) = frame payload"
    using write_frame_ok [OF assms(2)] by (simp add: frame_def)
  have stream: "drop (rpos t) (peer_bytes en' j) = frame payload @ rest"
    using assms(4) out by simp
  note rf = read_frame_of_frame [OF assms(3) stream len assms(5)]
  have "unat (Uint64 (PutUint64 (of_nat (length payload)))) = length payload"
    using len by (simp add: Uint64_PutUint64 unat_of_nat)
  with out rf show ?thesis
    by (simp add: frame_def length_PutUint64)
qed

theorem frame_round_trip_witness:
  "length [72, 105, 33 :: byte] < 2 ^ 32 \<and>
   fst (write_frame (test_env [0] [] []) world1 0 [72, 105, 33]) = None \<and>
   wire_out 0 (delta world1 (snd (write_frame (test_env [0] [] []) world1 0 [72, 105, 33])))
     = [0, 0, 0, 0, 0, 0, 0, 3, 72, 105, 33] \<and>
   fst (read_frame (test_env [0] [] [0, 0, 0, 0, 0, 0, 0, 3, 72, 105, 33, 9]) world1 0)
     = Inr [72, 105, 33] \<and>
   delta world1 (snd (read_frame (test_env [0] [] [0, 0, 0, 0, 0, 0, 0, 3, 72, 105, 33, 9]) world1 0))
     = [EvRead 0 8 True, EvMake 3 True, EvRead 0 3 True]"
  using frame_round_trip [where payload = "[72, 105, 33]" and en = "test_env [0] [] []"
      and w = world1 and k = 0 and v = world1 and j = 0 and t = "\<lparr>rpos = 0, wcnt = 0\<rparr>"
      and en' = "test_env [0] [] [0, 0, 0, 0, 0, 0, 0, 3, 72, 105, 33, 9]" and rest = "[9]"]
  by (simp add: write_frame_def conn_Write_def world1_def test_env_def delta_def emit_def
      PutUint64_def)

text \<open>
  C5. With no connection stored, \<open>ensureConnection\<close> dials at most three times and stops
  at the first success, which it returns at once with the connection stored and open. It
  sleeps \<open>retryTimeout\<close> after the first and after the second failure and not after the
  third; after three failures it returns the error of the connection and leaves the
  connection absent.
\<close>

theorem ensureConnection_retries:
  assumes "conn c = None"
  shows "(let addr = JoinHostPort (Host c) (Port c); d = dials w
          in case ensureConnection en c w of (r, c', w') \<Rightarrow>
            (if dial_ok en addr d then
               r = None \<and> conn c' = Some d \<and> socks w' d = Some \<lparr>rpos = 0, wcnt = 0\<rparr> \<and>
               delta w w' = [EvDial addr d True]
             else if dial_ok en addr (d + 1) then
               r = None \<and> conn c' = Some (d + 1) \<and> socks w' (d + 1) = Some \<lparr>rpos = 0, wcnt = 0\<rparr> \<and>
               delta w w' = [EvDial addr d False, EvSleep retryTimeout, EvDial addr (d + 1) True]
             else if dial_ok en addr (d + 2) then
               r = None \<and> conn c' = Some (d + 2) \<and> socks w' (d + 2) = Some \<lparr>rpos = 0, wcnt = 0\<rparr> \<and>
               delta w w' = [EvDial addr d False, EvSleep retryTimeout, EvDial addr (d + 1) False,
                             EvSleep retryTimeout, EvDial addr (d + 2) True]
             else
               r = Some ErrConnect \<and> conn c' = None \<and> socks w' = socks w \<and>
               delta w w' = [EvDial addr d False, EvSleep retryTimeout, EvDial addr (d + 1) False,
                             EvSleep retryTimeout, EvDial addr (d + 2) False]))"
  using ensureConnection_absent [OF assms, of w en]
  by (auto simp add: Let_def split: prod.splits if_splits)

theorem ensureConnection_retries_witness:
  "conn (NewWhisperClient ''localhost'' ''5000'') = None \<and>
   (case ensureConnection (test_env [] [] []) (NewWhisperClient ''localhost'' ''5000'') world0 of
      (r, c', w') \<Rightarrow>
        r = Some ErrConnect \<and> conn c' = None \<and>
        delta world0 w' =
          [EvDial ''localhost:5000'' 0 False, EvSleep 2000, EvDial ''localhost:5000'' 1 False,
           EvSleep 2000, EvDial ''localhost:5000'' 2 False]) \<and>
   (case ensureConnection (test_env [1] [] []) (NewWhisperClient ''localhost'' ''5000'') world0 of
      (r, c', w') \<Rightarrow>
        r = None \<and> conn c' = Some 1 \<and>
        delta world0 w' =
          [EvDial ''localhost:5000'' 0 False, EvSleep 2000, EvDial ''localhost:5000'' 1 True])"
  using ensureConnection_retries [where c = "NewWhisperClient ''localhost'' ''5000''"
      and w = world0 and en = "test_env [] [] []"]
    ensureConnection_retries [where c = "NewWhisperClient ''localhost'' ''5000''"
      and w = world0 and en = "test_env [1] [] []"]
  by (simp add: NewWhisperClient_def world0_def test_env_def JoinHostPort_def Let_def
      retryTimeout_def split: prod.splits)

text \<open>
  C6. The claim: an empty language is sent as no language at all. \<^verbatim>\<open>whisper_client.go\<close> and
  part 000 do that (lemmas \<open>language_field_normalized\<close> and \<open>language_field_absent\<close>
  above); part 001 passes the pointer on as it came. With a pointer to the empty string,
  the two transcriptions of part 001 write a request with the field \<open>language\<close> present and
  empty, where \<open>Transcribe\<close> of \<^verbatim>\<open>whisper_client.go\<close> writes none.
\<close>

theorem part_001_sends_empty_language:
  "written (delta world0 (snd (snd
      (Transcribe_part_001 (test_env [0] [] ok_reply) client0 world0
         ''a.wav'' ''base'' (Some []) ''transcribe''))))
     = [[0, 0, 0, 0, 0, 0, 0, 78],
        bytes_of ''command=transcribe;audio_path=/srv/a.wav;model=base;language=;task=transcribe;''] \<and>
   written (delta world0 (snd (snd
      (TranscribeData_part_001 (test_env [0] [] ok_reply) client0 world0
         [1, 2] ''base'' (Some []) ''transcribe''))))
     = [[0, 0, 0, 0, 0, 0, 0, 70],
        bytes_of ''command=transcribe;audio_data=AA;model=base;language=;task=transcribe;''] \<and>
   written (delta world0 (snd (snd
      (Transcribe (test_env [0] [] ok_reply) client0 world0
         ''a.wav'' ''base'' (Some []) ''transcribe''))))
     = [[0, 0, 0, 0, 0, 0, 0, 68],
        bytes_of ''command=transcribe;audio_path=/srv/a.wav;model=base;task=transcribe;'']"
  by (simp add: run_defs bytes_of_def PutUint64_def Uint64_def)

text \<open>
  C7. When a write or a read of \<open>sendRequest\<close> fails, the connection it was on is closed
  and the stored connection is absent when the error is returned: the close is the last
  event of the call, and every read and write of the call was on the closed socket. The
  next call then begins with a dial.
\<close>

theorem io_failure_tears_down:
  assumes "is_io_error r"
    and "sendRequest en c w req = (r, c', w') \<or> sendRequest_part_001 en c w req = (r, c', w')"
  shows "conn c' = None \<and>
     (\<exists>k es. delta w w' = es @ [EvClose k] \<and> only_on k es \<and> socks w' k = None \<and>
        (conn c = Some k \<or> conn c = None \<and> dials w \<le> k)) \<and>
     (\<exists>es. delta w' (snd (snd (sendRequest en c' w' req'))) =
        EvDial (JoinHostPort (Host c) (Port c)) (dials w')
          (dial_ok en (JoinHostPort (Host c) (Port c)) (dials w')) # es) \<and>
     (\<exists>es. delta w' (snd (snd (sendRequest_part_001 en c' w' req'))) =
        EvDial (JoinHostPort (Host c) (Port c)) (dials w')
          (dial_ok en (JoinHostPort (Host c) (Port c)) (dials w')) # es)"
proof -
  have closed: "Host c' = Host c \<and> Port c' = Port c \<and> conn c' = None \<and>
     (\<exists>k es. delta w w' = es @ [EvClose k] \<and> only_on k es \<and> socks w' k = None \<and>
        (conn c = Some k \<or> conn c = None \<and> dials w \<le> k))"
    using assms(2)
  proof
    assume "sendRequest en c w req = (r, c', w')"
    from sendRequest_closed [OF this assms(1)] show ?thesis .
  next
    assume 1: "sendRequest_part_001 en c w req = (r, c', w')"
    from sendRequest_part_001_closed [OF 1 assms(1)] sendRequest_part_001_client [OF 1]
    show ?thesis
      by (auto simp add: delta_def)
  qed
  then have none: "conn c' = None" and hp: "Host c' = Host c" "Port c' = Port c"
    by simp_all
  obtain r2 c2 w2 where 2: "sendRequest_part_001 en c' w' req' = (r2, c2, w2)"
    by (cases "sendRequest_part_001 en c' w' req'")
  have "\<exists>es. delta w' (snd (snd (sendRequest_part_001 en c' w' req'))) =
        EvDial (JoinHostPort (Host c) (Port c)) (dials w')
          (dial_ok en (JoinHostPort (Host c) (Port c)) (dials w')) # es"
    using sendRequest_part_001_redial [OF none 2] 2 hp by simp
  moreover have "\<exists>es. delta w' (snd (snd (sendRequest en c' w' req'))) =
        EvDial (JoinHostPort (Host c) (Port c)) (dials w')
          (dial_ok en (JoinHostPort (Host c) (Port c)) (dials w')) # es"
    using sendRequest_redial [OF none, of w' en req'] hp by simp
  ultimately show ?thesis
    using closed by simp
qed

theorem io_failure_tears_down_witness:
  "is_io_error (fst (sendRequest (test_env [0, 1] [0] ok_reply) client0 world0
       (ModelsReq \<lparr>m_Command = ''list_models''\<rparr>))) \<and>
   fst (sendRequest (test_env [0, 1] [0] ok_reply) client0 world0
       (ModelsReq \<lparr>m_Command = ''list_models''\<rparr>)) = Inl ErrWriteHeader \<and>
   conn (fst (snd (sendRequest (test_env [0, 1] [0] ok_reply) client0 world0
       (ModelsReq \<lparr>m_Command = ''list_models''\<rparr>)))) = None \<and>
   delta world0 (snd (snd (sendRequest (test_env [0, 1] [0] ok_reply) client0 world0
       (ModelsReq \<lparr>m_Command = ''list_models''\<rparr>))))
     = [EvDial ''localhost:5000'' 0 True, EvWrite 0 [0, 0, 0, 0, 0, 0, 0, 20] False, EvClose 0]"
  using io_failure_tears_down [where en = "test_env [0, 1] [0] ok_reply" and c = client0
      and w = world0 and req = "ModelsReq \<lparr>m_Command = ''list_models''\<rparr>"
      and r = "fst (sendRequest (test_env [0, 1] [0] ok_reply) client0 world0
         (ModelsReq \<lparr>m_Command = ''list_models''\<rparr>))"
      and c' = "fst (snd (sendRequest (test_env [0, 1] [0] ok_reply) client0 world0
         (ModelsReq \<lparr>m_Command = ''list_models''\<rparr>)))"
      and w' = "snd (snd (sendRequest (test_env [0, 1] [0] ok_reply) client0 world0
         (ModelsReq \<lparr>m_Command = ''list_models''\<rparr>)))"]
  by (simp add: run_defs PutUint64_def)

text \<open>
  C8. \<open>Transcribe\<close> takes the absolute path of its argument first. When the path cannot
  be made absolute, and in \<^verbatim>\<open>whisper_client.go\<close> also when the file does not exist, it
  returns an error with the client and the world as they were: no event, no counter.
  Otherwise the only payload it ever writes is the request whose field \<open>audio_path\<close> is
  the absolute path, after the header of that request. And it does write them, the header
  and then that request and nothing else: in \<^verbatim>\<open>whisper_client.go\<close> when the file
  exists, the request is marshalled, the dial succeeds and the two writes on the new
  socket succeed; in \<^verbatim>\<open>part_000\<close> when the request is marshalled,
  \<open>ensureConnection\<close> leaves an open connection and the next two writes on it succeed.
\<close>

theorem transcribe_resolves_path:
  "(abs_path en audioPath = None \<longrightarrow>
      Transcribe en c w audioPath model language task = (Inl ErrAbs, c, w) \<and>
      Transcribe_part_000 en c w audioPath model language task = (Inl ErrAbs, c, w)) \<and>
   (abs_path en audioPath = Some absPath \<and> stat_not_exist en absPath \<longrightarrow>
      Transcribe en c w audioPath model language task = (Inl (ErrNotExist absPath), c, w)) \<and>
   (abs_path en audioPath = Some absPath \<longrightarrow>
      map_of (json_fields (FileReq \<lparr>f_Command = ''transcribe'', f_AudioPath = absPath,
          f_Model = model, f_Language = normalize_language language, f_Task = task\<rparr>))
        ''audio_path'' = Some absPath \<and>
      (case json_Marshal en (FileReq \<lparr>f_Command = ''transcribe'', f_AudioPath = absPath,
              f_Model = model, f_Language = normalize_language language, f_Task = task\<rparr>) of
         None \<Rightarrow>
           written (delta w (snd (snd (Transcribe en c w audioPath model language task)))) = [] \<and>
           written (delta w (snd (snd (Transcribe_part_000 en c w audioPath model language task)))) = []
       | Some js \<Rightarrow>
           prefix (written (delta w (snd (snd (Transcribe en c w audioPath model language task)))))
             [PutUint64 (of_nat (length js)), js] \<and>
           prefix (written (delta w (snd (snd (Transcribe_part_000 en c w audioPath model language task)))))
             [PutUint64 (of_nat (length js)), js])) \<and>
   (abs_path en audioPath = Some absPath \<and> \<not> stat_not_exist en absPath \<and>
    json_Marshal en (FileReq \<lparr>f_Command = ''transcribe'', f_AudioPath = absPath,
        f_Model = model, f_Language = normalize_language language, f_Task = task\<rparr>) = Some js \<and>
    dial_ok en (JoinHostPort (Host c) (Port c)) (dials w) \<and>
    write_ok en (dials w) 0 \<and> write_ok en (dials w) 1 \<longrightarrow>
      written (delta w (snd (snd (Transcribe en c w audioPath model language task))))
        = [PutUint64 (of_nat (length js)), js]) \<and>
   (abs_path en audioPath = Some absPath \<and>
    json_Marshal en (FileReq \<lparr>f_Command = ''transcribe'', f_AudioPath = absPath,
        f_Model = model, f_Language = normalize_language language, f_Task = task\<rparr>) = Some js \<and>
    ensureConnection en c w = (None, c', w') \<and> conn c' = Some k \<and> socks w' k = Some s \<and>
    write_ok en k (wcnt s) \<and> write_ok en k (wcnt s + 1) \<longrightarrow>
      written (delta w (snd (snd (Transcribe_part_000 en c w audioPath model language task))))
        = [PutUint64 (of_nat (length js)), js])"
proof (intro conjI impI)
  assume "abs_path en audioPath = None"
  then show "Transcribe en c w audioPath model language task = (Inl ErrAbs, c, w)"
    and "Transcribe_part_000 en c w audioPath model language task = (Inl ErrAbs, c, w)"
    by (simp_all add: Transcribe_def Transcribe_part_000_def)
next
  assume "abs_path en audioPath = Some absPath \<and> stat_not_exist en absPath"
  then show "Transcribe en c w audioPath model language task = (Inl (ErrNotExist absPath), c, w)"
    by (simp add: Transcribe_def)
next
  show "map_of (json_fields (FileReq \<lparr>f_Command = ''transcribe'', f_AudioPath = absPath,
          f_Model = model, f_Language = normalize_language language, f_Task = task\<rparr>))
        ''audio_path'' = Some absPath"
    by simp
next
  assume a: "abs_path en audioPath = Some absPath"
  obtain r cT wT where 1: "Transcribe en c w audioPath model language task = (r, cT, wT)"
    by (cases "Transcribe en c w audioPath model language task")
  obtain r0 c0 w0 where 2: "Transcribe_part_000 en c w audioPath model language task = (r0, c0, w0)"
    by (cases "Transcribe_part_000 en c w audioPath model language task")
  from Transcribe_written [OF a 1] Transcribe_part_000_written [OF a 2] 1 2
  show "case json_Marshal en (FileReq \<lparr>f_Command = ''transcribe'', f_AudioPath = absPath,
              f_Model = model, f_Language = normalize_language language, f_Task = task\<rparr>) of
         None \<Rightarrow>
           written (delta w (snd (snd (Transcribe en c w audioPath model language task)))) = [] \<and>
           written (delta w (snd (snd (Transcribe_part_000 en c w audioPath model language task)))) = []
       | Some js \<Rightarrow>
           prefix (written (delta w (snd (snd (Transcribe en c w audioPath model language task)))))
             [PutUint64 (of_nat (length js)), js] \<and>
           prefix (written (delta w (snd (snd (Transcribe_part_000 en c w audioPath model language task)))))
             [PutUint64 (of_nat (length js)), js]"
    by (simp split: option.splits)
next
  assume h: "abs_path en audioPath = Some absPath \<and> \<not> stat_not_exist en absPath \<and>
    json_Marshal en (FileReq \<lparr>f_Command = ''transcribe'', f_AudioPath = absPath,
        f_Model = model, f_Language = normalize_language language, f_Task = task\<rparr>) = Some js \<and>
    dial_ok en (JoinHostPort (Host c) (Port c)) (dials w) \<and>
    write_ok en (dials w) 0 \<and> write_ok en (dials w) 1"
  then show "written (delta w (snd (snd (Transcribe en c w audioPath model language task))))
        = [PutUint64 (of_nat (length js)), js]"
    using Transcribe_sends [of en audioPath absPath model language task js c w] by blast
next
  assume h: "abs_path en audioPath = Some absPath \<and>
    json_Marshal en (FileReq \<lparr>f_Command = ''transcribe'', f_AudioPath = absPath,
        f_Model = model, f_Language = normalize_language language, f_Task = task\<rparr>) = Some js \<and>
    ensureConnection en c w = (None, c', w') \<and> conn c' = Some k \<and> socks w' k = Some s \<and>
    write_ok en k (wcnt s) \<and> write_ok en k (wcnt s + 1)"
  then show "written (delta w (snd (snd (Transcribe_part_000 en c w audioPath model language task))))
        = [PutUint64 (of_nat (length js)), js]"
    using Transcribe_part_000_sends [of en audioPath absPath model language task js c w c' w' k s]
    by blast
qed

theorem transcribe_resolves_path_witness:
  "abs_path (test_env [0] [] ok_reply) [] = None \<and>
   Transcribe (test_env [0] [] ok_reply) client0 world0 [] ''base'' None ''transcribe''
     = (Inl ErrAbs, client0, world0) \<and>
   Transcribe_part_000 (test_env [0] [] ok_reply) client0 world0 [] ''base'' None ''transcribe''
     = (Inl ErrAbs, client0, world0) \<and>
   abs_path (test_env [0] [] ok_reply) ''missing.wav'' = Some ''/srv/missing.wav'' \<and>
   stat_not_exist (test_env [0] [] ok_reply) ''/srv/missing.wav'' \<and>
   Transcribe (test_env [0] [] ok_reply) client0 world0 ''missing.wav'' ''base'' None ''transcribe''
     = (Inl (ErrNotExist ''/srv/missing.wav''), client0, world0) \<and>
   abs_path (test_env [0] [] ok_reply) ''a.wav'' = Some ''/srv/a.wav'' \<and>
   \<not> stat_not_exist (test_env [0] [] ok_reply) ''/srv/a.wav'' \<and>
   json_Marshal (test_env [0] [] ok_reply)
     (FileReq \<lparr>f_Command = ''transcribe'', f_AudioPath = ''/srv/a.wav'', f_Model = ''base'',
        f_Language = normalize_language None, f_Task = ''transcribe''\<rparr>)
     = Some (bytes_of ''command=transcribe;audio_path=/srv/a.wav;model=base;task=transcribe;'') \<and>
   dial_ok (test_env [0] [] ok_reply) (JoinHostPort (Host client0) (Port client0)) (dials world0) \<and>
   write_ok (test_env [0] [] ok_reply) (dials world0) 0 \<and>
   write_ok (test_env [0] [] ok_reply) (dials world0) 1 \<and>
   written (delta world0 (snd (snd
      (Transcribe (test_env [0] [] ok_reply) client0 world0 ''a.wav'' ''base'' None ''transcribe''))))
     = [[0, 0, 0, 0, 0, 0, 0, 68],
        bytes_of ''command=transcribe;audio_path=/srv/a.wav;model=base;task=transcribe;''] \<and>
   fst (ensureConnection (test_env [0] [] ok_reply) client0 world0) = None \<and>
   conn (fst (snd (ensureConnection (test_env [0] [] ok_reply) client0 world0))) = Some 0 \<and>
   socks (snd (snd (ensureConnection (test_env [0] [] ok_reply) client0 world0))) 0
     = Some \<lparr>rpos = 0, wcnt = 0\<rparr> \<and>
   written (delta world0 (snd (snd
      (Transcribe_part_000 (test_env [0] [] ok_reply) client0 world0 ''a.wav'' ''base'' None
         ''transcribe''))))
     = [[0, 0, 0, 0, 0, 0, 0, 68],
        bytes_of ''command=transcribe;audio_path=/srv/a.wav;model=base;task=transcribe;'']"
  using transcribe_resolves_path [where en = "test_env [0] [] ok_reply" and audioPath = "[]"
      and absPath = "[]" and js = "[]" and k = 0 and s = "\<lparr>rpos = 0, wcnt = 0\<rparr>"
      and c' = client0 and w' = world0
      and c = client0 and w = world0 and model = "''base''" and language = None
      and task = "''transcribe''"]
    transcribe_resolves_path [where en = "test_env [0] [] ok_reply" and audioPath = "''missing.wav''"
      and absPath = "''/srv/missing.wav''" and js = "[]" and k = 0
      and s = "\<lparr>rpos = 0, wcnt = 0\<rparr>" and c' = client0 and w' = world0
      and c = client0 and w = world0 and model = "''base''" and language = None
      and task = "''transcribe''"]
    transcribe_resolves_path [where en = "test_env [0] [] ok_reply" and audioPath = "''a.wav''"
      and absPath = "''/srv/a.wav''"
      and js = "bytes_of ''command=transcribe;audio_path=/srv/a.wav;model=base;task=transcribe;''"
      and k = 0 and s = "\<lparr>rpos = 0, wcnt = 0\<rparr>"
      and c' = "fst (snd (ensureConnection (test_env [0] [] ok_reply) client0 world0))"
      and w' = "snd (snd (ensureConnection (test_env [0] [] ok_reply) client0 world0))"
      and c = client0 and w = world0 and model = "''base''" and language = None
      and task = "''transcribe''"]
  by (simp add: run_defs bytes_of_def PutUint64_def Uint64_def)

text \<open>
  C9. The context is looked at once, when the call begins. If it is done then, the two
  operations with a context return its error and change neither the client nor the world.
  If it is not, they are the operations without a context, whatever the context does
  later: two contexts that are both not done at the time of the call give the same call.
\<close>

theorem context_checked_at_entry:
  "(done_at ctx (clock w) \<longrightarrow>
      TranscribeWithContext en ctx c w audioPath model language task
        = (Inl (ErrCtx (ctx_Err ctx)), c, w) \<and>
      TranscribeDataWithContext en ctx c w audioData model language task
        = (Inl (ErrCtx (ctx_Err ctx)), c, w)) \<and>
   (\<not> done_at ctx (clock w) \<longrightarrow>
      TranscribeWithContext en ctx c w audioPath model language task
        = Transcribe en c w audioPath model language task \<and>
      TranscribeDataWithContext en ctx c w audioData model language task
        = TranscribeData en c w audioData model language task) \<and>
   (\<not> done_at ctx (clock w) \<and> \<not> done_at ctx' (clock w) \<longrightarrow>
      TranscribeWithContext en ctx c w audioPath model language task
        = TranscribeWithContext en ctx' c w audioPath model language task \<and>
      TranscribeDataWithContext en ctx c w audioData model language task
        = TranscribeDataWithContext en ctx' c w audioData model language task)"
  by (simp add: TranscribeWithContext_def TranscribeDataWithContext_def)

theorem context_checked_at_entry_witness:
  "done_at (deadline_ctx 0) (clock world0) \<and>
   TranscribeDataWithContext (test_env [0] [] ok_reply) (deadline_ctx 0) client0 world0
       [1, 2] ''base'' None ''transcribe''
     = (Inl (ErrCtx DeadlineExceeded), client0, world0) \<and>
   \<not> done_at (deadline_ctx 3) (clock world0) \<and>
   \<not> done_at (deadline_ctx 7) (clock world0) \<and>
   TranscribeDataWithContext (test_env [0] [] ok_reply) (deadline_ctx 3) client0 world0
       [1, 2] ''base'' None ''transcribe''
     = TranscribeData (test_env [0] [] ok_reply) client0 world0 [1, 2] ''base'' None ''transcribe'' \<and>
   TranscribeDataWithContext (test_env [0] [] ok_reply) (deadline_ctx 3) client0 world0
       [1, 2] ''base'' None ''transcribe''
     = TranscribeDataWithContext (test_env [0] [] ok_reply) (deadline_ctx 7) client0 world0
       [1, 2] ''base'' None ''transcribe'' \<and>
   done_at (deadline_ctx 3) (clock (snd (snd
     (TranscribeData (test_env [0] [] ok_reply) client0 world0 [1, 2] ''base'' None ''transcribe'')))) \<and>
   fst (TranscribeData (test_env [0] [] ok_reply) client0 world0 [1, 2] ''base'' None ''transcribe'')
     = Inr \<lparr>t_Text = [], t_Language = [], t_Segments = [], t_ProcessingTime = 0, t_Error = []\<rparr>"
proof -
  have d0: "done_at (deadline_ctx 0) (clock world0)"
    and n3: "\<not> done_at (deadline_ctx 3) (clock world0)"
    and n7: "\<not> done_at (deadline_ctx 7) (clock world0)"
    by (simp_all add: deadline_ctx_def world0_def)
  have a: "TranscribeDataWithContext (test_env [0] [] ok_reply) (deadline_ctx 0) client0 world0
       [1, 2] ''base'' None ''transcribe''
     = (Inl (ErrCtx DeadlineExceeded), client0, world0)"
    using context_checked_at_entry [where ctx = "deadline_ctx 0" and w = world0
      and en = "test_env [0] [] ok_reply" and c = client0 and audioData = "[1, 2]"
      and audioPath = "''a.wav''"
      and model = "''base''" and language = None and task = "''transcribe''"] d0
    by (simp add: deadline_ctx_def)
  note inst = context_checked_at_entry [where ctx = "deadline_ctx 3" and ctx' = "deadline_ctx 7"
      and w = world0 and en = "test_env [0] [] ok_reply" and c = client0 and audioData = "[1, 2]"
      and audioPath = "''a.wav''"
      and model = "''base''" and language = None and task = "''transcribe''"]
  from inst n3 have b: "TranscribeDataWithContext (test_env [0] [] ok_reply) (deadline_ctx 3)
       client0 world0 [1, 2] ''base'' None ''transcribe''
     = TranscribeData (test_env [0] [] ok_reply) client0 world0 [1, 2] ''base'' None ''transcribe''"
    by blast
  from inst n3 n7 have c: "TranscribeDataWithContext (test_env [0] [] ok_reply) (deadline_ctx 3)
       client0 world0 [1, 2] ''base'' None ''transcribe''
     = TranscribeDataWithContext (test_env [0] [] ok_reply) (deadline_ctx 7) client0 world0
       [1, 2] ''base'' None ''transcribe''"
    by blast
  have e: "done_at (deadline_ctx 3) (clock (snd (snd
     (TranscribeData (test_env [0] [] ok_reply) client0 world0 [1, 2] ''base'' None ''transcribe''))))"
    and f: "fst (TranscribeData (test_env [0] [] ok_reply) client0 world0 [1, 2] ''base'' None ''transcribe'')
     = Inr \<lparr>t_Text = [], t_Language = [], t_Segments = [], t_ProcessingTime = 0, t_Error = []\<rparr>"
    by (simp_all add: deadline_ctx_def run_defs Uint64_def)
  from d0 n3 n7 a b c e f show ?thesis
    by (intro conjI)
qed

text \<open>
  C10. The read half of a call checks no bound on the length a header announces. For every
  header of eight bytes, it asks the runtime for a buffer of exactly the number the header
  encodes and, if it gets one, asks the stream for exactly as many bytes; the only
  failures are the refusal of the runtime and the short read. Every value of 64 bits is
  the number of some header.
\<close>

theorem read_frame_unbounded:
  assumes "socks w k = Some s"
    and "length h = 8"
    and "drop (rpos s) (peer_bytes en k) = h @ rest"
  shows "(let n = unat (Uint64 h)
          in delta w (snd (read_frame en w k)) =
               [EvRead k 8 True, EvMake n (alloc_ok en n)]
               @ (if alloc_ok en n then [EvRead k n (n \<le> length rest)] else [])
           \<and> fst (read_frame en w k) =
               (if \<not> alloc_ok en n then Inl (PanicMakeslice n)
                else if n \<le> length rest then Inr (take n rest)
                else Inl ErrReadBody))
       \<and> length (PutUint64 v) = 8 \<and> unat (Uint64 (PutUint64 v)) = unat v"
proof -
  let ?n = "unat (Uint64 h)"
  let ?w1 = "emit en (EvRead k 8 True) (w\<lparr>socks := (socks w)(k \<mapsto> s\<lparr>rpos := rpos s + 8\<rparr>)\<rparr>)"
  let ?w2 = "emit en (EvMake ?n (alloc_ok en ?n)) ?w1"
  have r1: "io_ReadFull en w k headerSize = (Some h, ?w1)"
    using io_ReadFull_prefix [OF assms(1), of en h rest] assms(2,3)
    by (simp add: headerSize_def)
  have s2: "socks ?w2 k = Some (s\<lparr>rpos := rpos s + 8\<rparr>)"
    by simp
  have d2: "drop (rpos (s\<lparr>rpos := rpos s + 8\<rparr>)) (peer_bytes en k) = rest"
    using drop_peer_after [of "rpos s" "peer_bytes en k" h rest] assms(2,3) by simp
  note r2 = io_ReadFull_open [OF s2 d2, of ?n]
  have rf: "read_frame en w k =
      (if \<not> alloc_ok en ?n then (Inl (PanicMakeslice ?n), ?w2)
       else (case fst (io_ReadFull en ?w2 k ?n) of
               None \<Rightarrow> Inl ErrReadBody | Some b \<Rightarrow> Inr b, snd (io_ReadFull en ?w2 k ?n)))"
    unfolding read_frame_def r1
    by (simp add: Let_def split: prod.splits option.splits)
  have "delta w (snd (read_frame en w k)) =
               [EvRead k 8 True, EvMake ?n (alloc_ok en ?n)]
               @ (if alloc_ok en ?n then [EvRead k ?n (?n \<le> length rest)] else [])"
    unfolding rf using r2(2) by (cases "alloc_ok en ?n") (simp_all add: delta_def)
  moreover have "fst (read_frame en w k) =
               (if \<not> alloc_ok en ?n then Inl (PanicMakeslice ?n)
                else if ?n \<le> length rest then Inr (take ?n rest)
                else Inl ErrReadBody)"
    unfolding rf using r2(1) by (cases "alloc_ok en ?n") simp_all
  ultimately show ?thesis
    by (simp add: Let_def length_PutUint64 Uint64_PutUint64)
qed

theorem read_frame_unbounded_witness:
  "socks world1 0 = Some \<lparr>rpos = 0, wcnt = 0\<rparr> \<and>
   length [255, 255, 255, 255, 255, 255, 255, 255 :: byte] = 8 \<and>
   delta world1 (snd (read_frame (test_env [0] [] [255, 255, 255, 255, 255, 255, 255, 255, 1]) world1 0))
     = [EvRead 0 8 True, EvMake 18446744073709551615 False] \<and>
   fst (read_frame (test_env [0] [] [255, 255, 255, 255, 255, 255, 255, 255, 1]) world1 0)
     = Inl (PanicMakeslice 18446744073709551615) \<and>
   delta world1 (snd (read_frame (test_env [0] [] [0, 0, 0, 1, 0, 0, 0, 0, 1]) world1 0))
     = [EvRead 0 8 True, EvMake 4294967296 True, EvRead 0 4294967296 False]"
  using read_frame_unbounded [where w = world1 and k = 0 and s = "\<lparr>rpos = 0, wcnt = 0\<rparr>"
      and h = "[255, 255, 255, 255, 255, 255, 255, 255]" and rest = "[1]"
      and en = "test_env [0] [] [255, 255, 255, 255, 255, 255, 255, 255, 1]"]
    read_frame_unbounded [where w = world1 and k = 0 and s = "\<lparr>rpos = 0, wcnt = 0\<rparr>"
      and h = "[0, 0, 0, 1, 0, 0, 0, 0]" and rest = "[1]"
      and en = "test_env [0] [] [0, 0, 0, 1, 0, 0, 0, 0, 1]"]
  by (simp add: world1_def test_env_def Uint64_def Let_def)

end
